theory Spec2Isabelle
  imports Complex_Main
begin

section \<open>Data model\<close>

text \<open>
  A Python \<^verbatim>\<open>datetime\<close> is naive and has microsecond resolution. It is modelled as the
  number of microseconds since midnight of day 0, so that \<^verbatim>\<open>.date()\<close>, \<^verbatim>\<open>.hour\<close> and the
  difference of two timestamps are arithmetic on that number. A \<^verbatim>\<open>date\<close> is a day number
  and a \<^verbatim>\<open>timedelta\<close> is a signed number of microseconds.

  Durations are Python numbers (ints or floats). They are modelled as exact reals:
  rounding of floating-point additions is outside the model.
\<close>

type_synonym datetime = int
type_synonym date = int
type_synonym timedelta = int

definition date_of :: "datetime \<Rightarrow> date" where
  "date_of t = t div 86400000000"

definition hour_of :: "datetime \<Rightarrow> int" where
  "hour_of t = (t mod 86400000000) div 3600000000"

definition total_seconds :: "timedelta \<Rightarrow> real" where
  "total_seconds d = real_of_int d / 1000000"

definition at_time :: "date \<Rightarrow> int \<Rightarrow> int \<Rightarrow> datetime" where
  \<comment> \<open>\<^verbatim>\<open>datetime(day, hour, minute)\<close>: the timestamp of a wall-clock time on a day\<close>
  "at_time d h m = d * 86400000000 + h * 3600000000 + m * 60000000"

text \<open>
  A raw usage log is a dict with the keys \<^verbatim>\<open>app_name\<close>, \<^verbatim>\<open>duration\<close> (minutes) and
  \<^verbatim>\<open>timestamp\<close>. Both aggregators read \<^verbatim>\<open>log['duration']\<close> and \<^verbatim>\<open>log['timestamp']\<close>
  of every log they count, so a log is a record with all three keys present. The keys
  \<^verbatim>\<open>app_name\<close> and \<^verbatim>\<open>timestamp\<close> are shared with the entries of the live buffer.
\<close>

record stamped_event =
  app_name :: string
  timestamp :: datetime

record usage_event = stamped_event +
  duration :: real

text \<open>The daily aggregate: the dict returned by \<^verbatim>\<open>aggregate_daily_data\<close>.\<close>

record daily_record =
  date :: date
  total_duration :: real
  session_count :: int
  morning_usage :: real
  afternoon_usage :: real
  evening_usage :: real
  night_usage :: real
  binge_sessions :: int
  max_continuous_usage :: real
  social_media_time :: real
  entertainment_time :: real
  productivity_time :: real
  other_time :: real

section \<open>Continuity calculator (usage\_tracker.py)\<close>

text \<open>
  \<^verbatim>\<open>_calculate_max_continuous\<close>: the loop over \<^verbatim>\<open>range(1, len(sorted_sessions))\<close> carries
  \<^verbatim>\<open>max_continuous\<close> and \<^verbatim>\<open>current_continuous\<close>; the previous session is \<^verbatim>\<open>sorted_sessions[i-1]\<close>.
\<close>

definition time_gap :: "usage_event \<Rightarrow> usage_event \<Rightarrow> real" where
  "time_gap prev cur = total_seconds (timestamp cur - timestamp prev) / 60"

fun max_continuous_loop ::
  "usage_event \<Rightarrow> real \<Rightarrow> real \<Rightarrow> usage_event list \<Rightarrow> real \<times> real" where
  "max_continuous_loop prev max_continuous current_continuous [] =
     (max_continuous, current_continuous)"
| "max_continuous_loop prev max_continuous current_continuous (s # rest) =
     (if time_gap prev s < 5
      then max_continuous_loop s max_continuous (current_continuous + duration s) rest
      else max_continuous_loop s (max max_continuous current_continuous) (duration s) rest)"

definition calculate_max_continuous :: "usage_event list \<Rightarrow> real" where
  "calculate_max_continuous sorted_sessions =
     (case sorted_sessions of
        [] \<Rightarrow> 0
      | s0 # rest \<Rightarrow>
          (case max_continuous_loop s0 0 (duration s0) rest of
             (max_continuous, current_continuous) \<Rightarrow> max max_continuous current_continuous))"

text \<open>
  The specification's wording of the same walk: the running total after each session
  (accumulating while the gap to the previous session is below 5 minutes, restarting at
  the session's own duration otherwise), and the largest running total seen.
\<close>

fun running_totals :: "usage_event \<Rightarrow> real \<Rightarrow> usage_event list \<Rightarrow> real list" where
  "running_totals prev run [] = [run]"
| "running_totals prev run (s # rest) =
     run # running_totals s (if time_gap prev s < 5 then run + duration s else duration s) rest"

definition spec_max_continuous :: "usage_event list \<Rightarrow> real" where
  "spec_max_continuous sessions =
     (case sessions of
        [] \<Rightarrow> 0
      | s0 # rest \<Rightarrow> Max (set (running_totals s0 (duration s0) rest)))"

section \<open>Session aggregator (usage\_tracker.py)\<close>

definition social_apps :: "string set" where
  "social_apps = {''Instagram'', ''TikTok'', ''WhatsApp'', ''Facebook'', ''Twitter'', ''Snapchat''}"

definition entertainment_apps :: "string set" where
  "entertainment_apps = {''YouTube'', ''Netflix'', ''Spotify'', ''Games'', ''Twitch''}"

definition productivity_apps :: "string set" where
  "productivity_apps = {''Chrome'', ''Email'', ''Calendar'', ''Notes'', ''Office''}"

text \<open>\<^verbatim>\<open>sum(s['duration'] for s in daily_sessions if cond(s))\<close>\<close>

definition sum_duration_if :: "(usage_event \<Rightarrow> bool) \<Rightarrow> usage_event list \<Rightarrow> real" where
  "sum_duration_if cond sessions = sum_list (map duration (filter cond sessions))"

definition aggregate_daily_data :: "usage_event list \<Rightarrow> date \<Rightarrow> daily_record option" where
  "aggregate_daily_data raw_logs target_date =
     (let daily_sessions = filter (\<lambda>log. date_of (timestamp log) = target_date) raw_logs
      in if daily_sessions = [] then None
         else
           let total = sum_list (map duration daily_sessions);
               social = sum_duration_if (\<lambda>s. app_name s \<in> social_apps) daily_sessions;
               entertainment = sum_duration_if (\<lambda>s. app_name s \<in> entertainment_apps) daily_sessions;
               productivity = sum_duration_if (\<lambda>s. app_name s \<in> productivity_apps) daily_sessions;
               other = total - social - entertainment - productivity
           in Some \<lparr>
                date = target_date,
                total_duration = total,
                session_count = int (length daily_sessions),
                morning_usage =
                  sum_duration_if (\<lambda>s. 6 \<le> hour_of (timestamp s) \<and> hour_of (timestamp s) < 12) daily_sessions,
                afternoon_usage =
                  sum_duration_if (\<lambda>s. 12 \<le> hour_of (timestamp s) \<and> hour_of (timestamp s) < 18) daily_sessions,
                evening_usage =
                  sum_duration_if (\<lambda>s. 18 \<le> hour_of (timestamp s) \<and> hour_of (timestamp s) < 22) daily_sessions,
                night_usage =
                  sum_duration_if (\<lambda>s. hour_of (timestamp s) \<ge> 22 \<or> hour_of (timestamp s) < 6) daily_sessions,
                binge_sessions = int (length (filter (\<lambda>s. duration s > 45) daily_sessions)),
                max_continuous_usage = calculate_max_continuous (sort_key timestamp daily_sessions),
                social_media_time = social,
                entertainment_time = entertainment,
                productivity_time = productivity,
                other_time = max 0 other
              \<rparr>)"

text \<open>
  \<^verbatim>\<open>get_three_day_data\<close>: \<^verbatim>\<open>datetime.now().date()\<close> is the parameter \<open>today\<close>; the loop
  \<^verbatim>\<open>for i in range(2, -1, -1)\<close> appends one record per offset.
\<close>

definition zero_record :: "date \<Rightarrow> daily_record" where
  "zero_record target_date = \<lparr>
     date = target_date,
     total_duration = 0,
     session_count = 0,
     morning_usage = 0,
     afternoon_usage = 0,
     evening_usage = 0,
     night_usage = 0,
     binge_sessions = 0,
     max_continuous_usage = 0,
     social_media_time = 0,
     entertainment_time = 0,
     productivity_time = 0,
     other_time = 0
   \<rparr>"

definition three_day_entry :: "usage_event list \<Rightarrow> date \<Rightarrow> int \<Rightarrow> daily_record" where
  "three_day_entry raw_logs today i =
     (let target_date = today - i
      in case aggregate_daily_data raw_logs target_date of
           Some daily_data \<Rightarrow> daily_data
         | None \<Rightarrow> zero_record target_date)"

definition get_three_day_data :: "date \<Rightarrow> usage_event list \<Rightarrow> daily_record list" where
  "get_three_day_data today raw_logs = map (three_day_entry raw_logs today) [2, 1, 0]"

section \<open>Rule-based risk scorer (addiction\_predictor.py)\<close>

record risk_assessment =
  risk_level :: int
  risk_probability :: real
  risk_label :: string

definition labels :: "(int \<times> string) list" where
  "labels = [(0, ''Low''), (1, ''Moderate''), (2, ''High''), (3, ''Critical'')]"

definition get_risk_label :: "int \<Rightarrow> string" where
  "get_risk_label level = (case map_of labels level of Some l \<Rightarrow> l | None \<Rightarrow> ''Unknown'')"

definition rule_based_prediction :: "daily_record \<Rightarrow> risk_assessment" where
  "rule_based_prediction usage_data =
     (let daily_usage = total_duration usage_data;
          night = night_usage usage_data;
          binge = binge_sessions usage_data;
          risk_score0 = (0::int);
          risk_score1 =
            (if daily_usage > 360 then risk_score0 + 3
             else if daily_usage > 240 then risk_score0 + 2
             else if daily_usage > 120 then risk_score0 + 1
             else risk_score0);
          risk_score2 = (if night > 60 then risk_score1 + 2 else risk_score1);
          risk_score = (if binge > 3 then risk_score2 + 2 else risk_score2);
          level = min risk_score 3
      in \<lparr>risk_level = level,
          risk_probability = min (real_of_int risk_score / 7) 1,
          risk_label = get_risk_label level\<rparr>)"

text \<open>The specification's formula for the score: three independent additive terms.\<close>

definition usage_tier :: "real \<Rightarrow> int" where
  "usage_tier u = (if u > 360 then 3 else if u > 240 then 2 else if u > 120 then 1 else 0)"

definition spec_risk_score :: "daily_record \<Rightarrow> int" where
  "spec_risk_score d =
     usage_tier (total_duration d)
     + (if night_usage d > 60 then 2 else 0)
     + (if binge_sessions d > 3 then 2 else 0)"

definition day_with_total :: "real \<Rightarrow> daily_record" where
  \<comment> \<open>a day with the given total and zero night and binge inputs\<close>
  "day_with_total u = (zero_record 0)\<lparr>total_duration := u\<rparr>"

definition scenario_sessions :: "usage_event list" where
  \<comment> \<open>three sessions 3 minutes apart, then one 10 minutes later\<close>
  "scenario_sessions =
     [\<lparr>app_name = ''YouTube'', timestamp = at_time 0 9 0, duration = 10\<rparr>,
      \<lparr>app_name = ''YouTube'', timestamp = at_time 0 9 3, duration = 10\<rparr>,
      \<lparr>app_name = ''YouTube'', timestamp = at_time 0 9 6, duration = 10\<rparr>,
      \<lparr>app_name = ''YouTube'', timestamp = at_time 0 9 16, duration = 5\<rparr>]"


section \<open>Per-date aggregator with app usage (usage\_tracker.py)\<close>

text \<open>
  \<^verbatim>\<open>process_logs_to_daily\<close> keeps a dict from dates to day records and updates the record
  of each log's date in place. A dict is an association list in insertion order with
  distinct keys. The day record has the keys of the daily aggregate and \<^verbatim>\<open>app_usage\<close>
  (its \<^verbatim>\<open>date\<close> key holds the text of the date; the model keeps the date itself).
\<close>

record daily_detail = daily_record +
  app_usage :: "(string \<times> real) list"

definition dict_add :: "'k \<Rightarrow> real \<Rightarrow> ('k \<times> real) list \<Rightarrow> ('k \<times> real) list" where
  \<comment> \<open>\<^verbatim>\<open>d[k] = d.get(k, 0) + x\<close>, and \<^verbatim>\<open>d[k] += x\<close> on a \<^verbatim>\<open>defaultdict(float)\<close>\<close>
  "dict_add k x d =
     (case map_of d k of
        None \<Rightarrow> d @ [(k, 0 + x)]
      | Some _ \<Rightarrow> map (\<lambda>(k', v). if k' = k then (k', v + x) else (k', v)) d)"

definition group_sums :: "('e \<Rightarrow> 'k) \<Rightarrow> ('e \<Rightarrow> real) \<Rightarrow> 'e list \<Rightarrow> ('k \<times> real) list" where
  \<comment> \<open>\<^verbatim>\<open>for e in xs: d[key(e)] += val(e)\<close> on an empty \<^verbatim>\<open>defaultdict(float)\<close>\<close>
  "group_sums key val xs = foldl (\<lambda>d e. dict_add (key e) (val e) d) [] xs"

definition lookup0 :: "('k \<times> real) list \<Rightarrow> 'k \<Rightarrow> real" where
  \<comment> \<open>\<^verbatim>\<open>d.get(k, 0)\<close>\<close>
  "lookup0 d k = (case map_of d k of None \<Rightarrow> 0 | Some v \<Rightarrow> v)"

definition lower_char :: "char \<Rightarrow> char" where
  "lower_char c =
     (if 65 \<le> (of_char c :: nat) \<and> (of_char c :: nat) \<le> 90
      then char_of ((of_char c :: nat) + 32) else c)"

definition lower :: "string \<Rightarrow> string" where
  \<comment> \<open>\<^verbatim>\<open>str.lower()\<close> on ASCII text\<close>
  "lower s = map lower_char s"

definition new_day :: "date \<Rightarrow> daily_detail" where
  "new_day d = \<lparr>
     date = d,
     total_duration = 0,
     session_count = 0,
     morning_usage = 0,
     afternoon_usage = 0,
     evening_usage = 0,
     night_usage = 0,
     binge_sessions = 0,
     max_continuous_usage = 0,
     social_media_time = 0,
     entertainment_time = 0,
     productivity_time = 0,
     other_time = 0,
     app_usage = []
   \<rparr>"

definition update_day :: "usage_event \<Rightarrow> daily_detail \<Rightarrow> daily_detail" where
  "update_day log' day_data0 =
     (let day_data1 = day_data0\<lparr>total_duration := total_duration day_data0 + duration log'\<rparr>;
          day_data2 = day_data1\<lparr>session_count := session_count day_data1 + 1\<rparr>;
          day_data3 = day_data2\<lparr>app_usage :=
                        dict_add (app_name log') (duration log') (app_usage day_data2)\<rparr>;
          hour = hour_of (timestamp log');
          day_data4 =
            (if 22 \<le> hour \<or> hour \<le> 6
               then day_data3\<lparr>night_usage := night_usage day_data3 + duration log'\<rparr>
             else if 6 < hour \<and> hour \<le> 12
               then day_data3\<lparr>morning_usage := morning_usage day_data3 + duration log'\<rparr>
             else if 12 < hour \<and> hour \<le> 18
               then day_data3\<lparr>afternoon_usage := afternoon_usage day_data3 + duration log'\<rparr>
             else day_data3\<lparr>evening_usage := evening_usage day_data3 + duration log'\<rparr>);
          name = lower (app_name log')
      in if name \<in> set [''instagram'', ''facebook'', ''twitter'', ''snapchat'', ''tiktok'']
           then day_data4\<lparr>social_media_time := social_media_time day_data4 + duration log'\<rparr>
         else if name \<in> set [''youtube'', ''netflix'', ''spotify'', ''games'']
           then day_data4\<lparr>entertainment_time := entertainment_time day_data4 + duration log'\<rparr>
         else if name \<in> set [''email'', ''calendar'', ''notes'', ''documents'']
           then day_data4\<lparr>productivity_time := productivity_time day_data4 + duration log'\<rparr>
         else day_data4\<lparr>other_time := other_time day_data4 + duration log'\<rparr>)"

definition process_log ::
  "(date \<times> daily_detail) list \<Rightarrow> usage_event \<Rightarrow> (date \<times> daily_detail) list" where
  "process_log daily_data log' =
     (let d = date_of (timestamp log');
          daily_data' =
            (if map_of daily_data d = None then daily_data @ [(d, new_day d)] else daily_data)
      in map (\<lambda>(k, day_data). if k = d then (k, update_day log' day_data) else (k, day_data))
           daily_data')"

definition process_logs_to_daily :: "usage_event list \<Rightarrow> daily_detail list" where
  "process_logs_to_daily logs = map snd (foldl process_log [] logs)"

text \<open>The partition property of a day record, and the hour ranges of the data model.\<close>

definition buckets_sum_to_total :: "'a daily_record_scheme \<Rightarrow> bool" where
  "buckets_sum_to_total r \<longleftrightarrow>
     morning_usage r + afternoon_usage r + evening_usage r + night_usage r = total_duration r"

definition example_logs :: "usage_event list" where
  "example_logs =
     [\<lparr>app_name = ''Instagram'', timestamp = at_time 7 8 30, duration = 50\<rparr>,
      \<lparr>app_name = ''Notes'', timestamp = at_time 7 13 0, duration = 20\<rparr>,
      \<lparr>app_name = ''Maps'', timestamp = at_time 7 23 10, duration = 15\<rparr>,
      \<lparr>app_name = ''YouTube'', timestamp = at_time 8 19 0, duration = 30\<rparr>]"

definition log_at_hour :: "int \<Rightarrow> usage_event" where
  \<comment> \<open>one 10-minute session on day 0 at the given hour\<close>
  "log_at_hour h = \<lparr>app_name = ''Chrome'', timestamp = at_time 0 h 0, duration = 10\<rparr>"

section \<open>Numeric helpers\<close>

text \<open>
  Python slices from the end: \<^verbatim>\<open>xs[-n:]\<close> is the whole list when it has at most \<open>n\<close>
  elements, and \<^verbatim>\<open>xs[:-n]\<close> is empty then.
\<close>

definition last_n :: "nat \<Rightarrow> 'a list \<Rightarrow> 'a list" where
  "last_n n xs = (if length xs \<le> n then xs else drop (length xs - n) xs)"

definition all_but_last_n :: "nat \<Rightarrow> 'a list \<Rightarrow> 'a list" where
  "all_but_last_n n xs = (if length xs \<le> n then [] else take (length xs - n) xs)"

text \<open>
  \<^verbatim>\<open>np.mean\<close> of an empty array is \<^verbatim>\<open>nan\<close> (with a warning, not an exception), and every
  comparison with \<^verbatim>\<open>nan\<close> is false. \<open>None\<close> stands for \<^verbatim>\<open>nan\<close>.
\<close>

definition np_mean :: "real list \<Rightarrow> real option" where
  "np_mean xs = (if xs = [] then None else Some (sum_list xs / real (length xs)))"


definition exceeds :: "real option \<Rightarrow> real option \<Rightarrow> bool" where
  \<comment> \<open>\<^verbatim>\<open>a > b\<close> on floats that may be \<^verbatim>\<open>nan\<close>\<close>
  "exceeds a b = (case (a, b) of (Some x, Some y) \<Rightarrow> x > y | _ \<Rightarrow> False)"

definition times :: "real option \<Rightarrow> real \<Rightarrow> real option" where
  \<comment> \<open>\<^verbatim>\<open>a * c\<close> on a float that may be \<^verbatim>\<open>nan\<close>\<close>
  "times a c = map_option (\<lambda>x. x * c) a"

section \<open>Anomaly detector (behavior\_analyzer.py)\<close>

text \<open>
  One row of the feature matrix built by \<^verbatim>\<open>_extract_behavioral_features\<close>: 14 columns in
  this order. The detector reads columns 0, 8 and 11.
\<close>

record feature_row =
  col_total_duration :: real
  col_session_count :: real
  col_unique_apps :: real
  col_avg_session_duration :: real
  col_interaction_rate :: real
  col_morning_usage :: real
  col_afternoon_usage :: real
  col_evening_usage :: real
  col_night_usage :: real
  col_social_time :: real
  col_entertainment_time :: real
  col_binge_score :: real
  col_hours_used :: real
  col_weekday :: real

text \<open>
  An anomaly dict. The description of a usage spike is a formatted percentage: the model
  keeps the number before formatting (\<open>None\<close> when the historical mean is 0 and the
  quotient is not finite).
\<close>

datatype description =
  Usage_increased_by "real option"
  | Text string

record anomaly =
  anomaly_type :: string
  anomaly_severity :: string
  anomaly_description :: description

definition usage_spike_check :: "real list \<Rightarrow> anomaly list" where
  "usage_spike_check usage_trend =
     (if length usage_trend > 3 then
        let recent_avg = np_mean (last_n 3 usage_trend);
            historical_avg = np_mean (all_but_last_n 3 usage_trend)
        in if exceeds recent_avg (times historical_avg 1.5) then
             [\<lparr>anomaly_type = ''usage_spike'',
               anomaly_severity =
                 (if exceeds recent_avg (times historical_avg 2) then ''high'' else ''medium''),
               anomaly_description =
                 Usage_increased_by
                   (case (recent_avg, historical_avg) of
                      (Some r, Some h) \<Rightarrow> if h = 0 then None else Some ((r / h - 1) * 100)
                    | _ \<Rightarrow> None)\<rparr>]
           else []
      else [])"

definition night_usage_check :: "real list \<Rightarrow> anomaly list" where
  "night_usage_check night =
     (if exceeds (np_mean (last_n 3 night)) (times (np_mean (all_but_last_n 3 night)) 2) then
        [\<lparr>anomaly_type = ''night_usage_increase'',
          anomaly_severity = ''medium'',
          anomaly_description = Text ''Significant increase in late-night usage''\<rparr>]
      else [])"

definition binge_check :: "real list \<Rightarrow> anomaly list" where
  "binge_check binge_scores =
     (if exceeds (np_mean (last_n 3 binge_scores)) (Some 0.3) then
        [\<lparr>anomaly_type = ''binge_behavior'',
          anomaly_severity = ''high'',
          anomaly_description = Text ''Increased binge usage patterns detected''\<rparr>]
      else [])"

definition detect_behavioral_anomalies :: "feature_row list \<Rightarrow> anomaly list" where
  "detect_behavioral_anomalies features =
     (if length features < 5 then []
      else
        let recent_features = last_n 14 features;
            anomalies0 = [];
            usage_trend = map col_total_duration recent_features;
            anomalies1 = anomalies0 @ usage_spike_check usage_trend;
            night = map col_night_usage recent_features;
            anomalies2 = anomalies1 @ night_usage_check night;
            binge_scores = map col_binge_score recent_features;
            anomalies3 = anomalies2 @ binge_check binge_scores
        in anomalies3)"

text \<open>
  The specification's wording: the window is the most recent 14 rows (all rows when
  there are fewer), the recent mean is over its last 3 rows and the earlier mean over
  all rows before those.
\<close>

definition window :: "feature_row list \<Rightarrow> feature_row list" where
  "window features = drop (length features - 14) features"

definition mean_last3 :: "(feature_row \<Rightarrow> real) \<Rightarrow> feature_row list \<Rightarrow> real" where
  "mean_last3 col w =
     (col (w ! (length w - 1)) + col (w ! (length w - 2)) + col (w ! (length w - 3))) / 3"

definition mean_earlier :: "(feature_row \<Rightarrow> real) \<Rightarrow> feature_row list \<Rightarrow> real" where
  "mean_earlier col w = (\<Sum>i<length w - 3. col (w ! i)) / real (length w - 3)"

definition feature_day :: "real \<Rightarrow> real \<Rightarrow> real \<Rightarrow> feature_row" where
  \<comment> \<open>a row with the given total duration, night session count and binge score\<close>
  "feature_day usage night binge = \<lparr>
     col_total_duration = usage, col_session_count = 4, col_unique_apps = 2,
     col_avg_session_duration = usage / 4, col_interaction_rate = 1,
     col_morning_usage = 1, col_afternoon_usage = 1, col_evening_usage = 1,
     col_night_usage = night, col_social_time = 0, col_entertainment_time = 0,
     col_binge_score = binge, col_hours_used = 3, col_weekday = 0\<rparr>"

definition example_features :: "feature_row list" where
  "example_features =
     [feature_day 100 1 0, feature_day 100 1 0, feature_day 250 1 0.5,
      feature_day 250 1 0.5, feature_day 250 1 0.5]"

section \<open>Insight generator (addiction\_predictor.py)\<close>

text \<open>
  \<^verbatim>\<open>np.polyfit(range(n), y, 1)[0]\<close> is a library call: the slope of the least-squares
  line through the points \<open>(i, y\<^sub>i)\<close>, here in the closed form of the normal equations.
\<close>

definition polyfit_slope :: "real list \<Rightarrow> real" where
  "polyfit_slope y =
     (let n = real (length y);
          xs = map real [0..<length y];
          sx = sum_list xs;
          sxx = sum_list (map (\<lambda>x. x * x) xs);
          sy = sum_list y;
          sxy = sum_list (map (\<lambda>(x, v). x * v) (zip xs y))
      in (n * sxy - sx * sy) / (n * sxx - sx * sx))"

text \<open>
  An insight dict. The message is a formatted string: the model keeps which message it is
  and the number it is formatted from.
\<close>

datatype message =
  Usage_increasing real
  | Usage_decreasing real
  | High_night_usage real
  | Binge_sessions_detected int
  | High_social_media_usage real

record insight =
  insight_type :: string
  insight_message :: message
  insight_severity :: string

definition mean_value :: "real option \<Rightarrow> real" where
  \<comment> \<open>the number a message is formatted from; it is only read after a comparison that
     fails on \<^verbatim>\<open>nan\<close>\<close>
  "mean_value a = (case a of Some x \<Rightarrow> x | None \<Rightarrow> 0)"

definition generate_insights :: "daily_record list \<Rightarrow> insight list" where
  "generate_insights three_day_data =
     (let insights0 = [];
          daily_usage = map total_duration three_day_data;
          insights1 =
            (if length daily_usage \<ge> 2 then
               let trend = polyfit_slope daily_usage
               in if trend > 30 then
                    insights0 @ [\<lparr>insight_type = ''warning'',
                                  insight_message = Usage_increasing trend,
                                  insight_severity = ''high''\<rparr>]
                  else if trend < - 30 then
                    insights0 @ [\<lparr>insight_type = ''positive'',
                                  insight_message = Usage_decreasing \<bar>trend\<bar>,
                                  insight_severity = ''low''\<rparr>]
                  else insights0
             else insights0);
          night = map night_usage three_day_data;
          avg_night = np_mean night;
          insights2 =
            (if exceeds avg_night (Some 60) then
               insights1 @ [\<lparr>insight_type = ''warning'',
                             insight_message = High_night_usage (mean_value avg_night),
                             insight_severity = ''high''\<rparr>]
             else insights1);
          total_binge = sum_list (map binge_sessions three_day_data);
          insights3 =
            (if total_binge > 5 then
               insights2 @ [\<lparr>insight_type = ''alert'',
                             insight_message = Binge_sessions_detected total_binge,
                             insight_severity = ''critical''\<rparr>]
             else insights2);
          social_time = map social_media_time three_day_data;
          avg_social = np_mean social_time;
          insights4 =
            (if exceeds avg_social (Some 180) then
               insights3 @ [\<lparr>insight_type = ''warning'',
                             insight_message = High_social_media_usage (mean_value avg_social),
                             insight_severity = ''moderate''\<rparr>]
             else insights3)
      in insights4)"

text \<open>
  The specification's wording: the mean of a field over the window, and a family of
  3-day windows in which each of the four checks is switched separately.
\<close>

definition mean_of :: "(daily_record \<Rightarrow> real) \<Rightarrow> daily_record list \<Rightarrow> real" where
  "mean_of field days = (\<Sum>d\<leftarrow>days. field d) / real (length days)"

datatype trend = Rising | Falling | Flat

definition window_day :: "real \<Rightarrow> bool \<Rightarrow> bool \<Rightarrow> bool \<Rightarrow> daily_record" where
  "window_day usage n b s =
     (zero_record 0)\<lparr>total_duration := usage,
                     night_usage := (if n then 100 else 0),
                     binge_sessions := (if b then 2 else 0),
                     social_media_time := (if s then 200 else 0)\<rparr>"

definition window_with :: "trend \<Rightarrow> bool \<Rightarrow> bool \<Rightarrow> bool \<Rightarrow> daily_record list" where
  "window_with t n b s =
     (case t of
        Rising \<Rightarrow> [window_day 500 n b s, window_day 540 n b s, window_day 580 n b s]
      | Falling \<Rightarrow> [window_day 580 n b s, window_day 540 n b s, window_day 500 n b s]
      | Flat \<Rightarrow> [window_day 500 n b s, window_day 500 n b s, window_day 500 n b s])"

definition kinds :: "insight list \<Rightarrow> (string \<times> string) list" where
  \<comment> \<open>the type and severity of each insight\<close>
  "kinds insights = map (\<lambda>i. (insight_type i, insight_severity i)) insights"

definition sq_error :: "real list \<Rightarrow> real \<Rightarrow> real \<Rightarrow> real" where
  \<comment> \<open>the squared error of the line \<open>a * i + b\<close> against the points \<open>(i, y\<^sub>i)\<close>\<close>
  "sq_error y a b = (\<Sum>i<length y. (y ! i - (a * real i + b))\<^sup>2)"

definition scenario_days :: "daily_record list" where
  "scenario_days = [day_with_total 400, day_with_total 50, day_with_total 500]"

section \<open>Pattern consistency (behavior\_analyzer.py)\<close>









section \<open>Real-time pattern detector (real\_time\_tracker.py)\<close>

text \<open>
  An entry of the usage buffer; \<^verbatim>\<open>session_duration\<close> is in seconds. A pattern is a dict
  whose keys depend on its type; only a binge pattern has a \<^verbatim>\<open>severity\<close>. The
  \<^verbatim>\<open>recommendation\<close> text of a pattern is fixed by its type and peak hour and is left out.
\<close>

record buffer_entry = stamped_event +
  user_id :: string
  session_duration :: real
  interactions :: int

datatype pattern =
  Binge_usage string real
  | Peak_usage_time int real
  | App_switching nat

fun pattern_type :: "pattern \<Rightarrow> string" where
  "pattern_type (Binge_usage severity minutes) = ''binge_usage''"
| "pattern_type (Peak_usage_time peak_hour peak_usage) = ''peak_usage_time''"
| "pattern_type (App_switching app_count) = ''app_switching''"

fun pattern_severity :: "pattern \<Rightarrow> string option" where
  \<comment> \<open>\<^verbatim>\<open>pattern.get("severity")\<close>\<close>
  "pattern_severity (Binge_usage severity minutes) = Some severity"
| "pattern_severity (Peak_usage_time peak_hour peak_usage) = None"
| "pattern_severity (App_switching app_count) = None"

record detection =
  patterns :: "pattern list"
  confidence :: real

definition detect_binge_pattern :: "buffer_entry list \<Rightarrow> pattern option" where
  "detect_binge_pattern usage_data =
     (let recent_data = last_n 20 usage_data
      in if length recent_data < 5 then None
         else
           let total_time = sum_list (map session_duration recent_data)
           in if total_time > 3600
              then Some (Binge_usage (if total_time > 7200 then ''high'' else ''medium'')
                           (total_time / 60))
              else None)"

text \<open>
  \<^verbatim>\<open>max(hour_usage, key=hour_usage.get)\<close>: the first key, in insertion order, whose value
  is the largest.
\<close>

fun first_max :: "('k \<times> real) \<Rightarrow> ('k \<times> real) list \<Rightarrow> ('k \<times> real)" where
  "first_max best [] = best"
| "first_max best (p # ps) = first_max (if snd p > snd best then p else best) ps"

definition detect_time_patterns :: "buffer_entry list \<Rightarrow> pattern option" where
  "detect_time_patterns usage_data =
     (let hour_usage = group_sums (\<lambda>entry. hour_of (timestamp entry)) session_duration usage_data
      in case hour_usage of
           [] \<Rightarrow> None
         | p # ps \<Rightarrow>
             let (peak_hour, peak_seconds) = first_max p ps;
                 peak_usage = peak_seconds / 60
             in if peak_usage > 60 then Some (Peak_usage_time peak_hour peak_usage) else None)"

definition detect_app_switching :: "buffer_entry list \<Rightarrow> pattern option" where
  "detect_app_switching usage_data =
     (let recent_data = last_n 10 usage_data
      in if length recent_data < 5 then None
         else
           let unique_apps = length (remdups (map app_name recent_data))
           in if unique_apps \<ge> 5 then Some (App_switching unique_apps) else None)"

definition calculate_pattern_confidence :: "pattern list \<Rightarrow> real" where
  "calculate_pattern_confidence ps =
     (if ps = [] then 0
      else
        let confidence0 = min (real (length ps) * 0.3) 1.0;
            confidence1 =
              foldl (\<lambda>c p. if pattern_severity p = Some ''high'' then c + 0.2
                            else if pattern_severity p = Some ''medium'' then c + 0.1
                            else c)
                confidence0 ps
        in min confidence1 1.0)"

definition append_if :: "'a list \<Rightarrow> 'a option \<Rightarrow> 'a list" where
  \<comment> \<open>\<^verbatim>\<open>if x: xs.append(x)\<close>\<close>
  "append_if xs x = (case x of None \<Rightarrow> xs | Some v \<Rightarrow> xs @ [v])"

definition detect_patterns :: "buffer_entry list \<Rightarrow> detection" where
  "detect_patterns usage_data =
     (if length usage_data < 10 then \<lparr>patterns = [], confidence = 0\<rparr>
      else
        let patterns0 = [];
            patterns1 = append_if patterns0 (detect_binge_pattern usage_data);
            patterns2 = append_if patterns1 (detect_time_patterns usage_data);
            patterns3 = append_if patterns2 (detect_app_switching usage_data)
        in \<lparr>patterns = patterns3, confidence = calculate_pattern_confidence patterns3\<rparr>)"

text \<open>
  The specification's wording, in minutes: the summed duration of the last 20 entries,
  the summed duration of the busiest hour of day, the number of distinct apps among the
  last 10 entries, and the severity bonus of a pattern.
\<close>

definition last20_minutes :: "buffer_entry list \<Rightarrow> real" where
  "last20_minutes buf = (\<Sum>e\<leftarrow>drop (length buf - 20) buf. session_duration e) / 60"

definition hour_minutes :: "buffer_entry list \<Rightarrow> int \<Rightarrow> real" where
  "hour_minutes buf h =
     (\<Sum>e\<leftarrow>filter (\<lambda>e. hour_of (timestamp e) = h) buf. session_duration e) / 60"

definition busiest_hour_minutes :: "buffer_entry list \<Rightarrow> real" where
  "busiest_hour_minutes buf = Max (hour_minutes buf ` (\<lambda>e. hour_of (timestamp e)) ` set buf)"

definition distinct_apps_last10 :: "buffer_entry list \<Rightarrow> nat" where
  "distinct_apps_last10 buf = card (app_name ` set (drop (length buf - 10) buf))"

definition severity_bonus :: "pattern \<Rightarrow> real" where
  "severity_bonus p =
     (if pattern_severity p = Some ''high'' then 0.2
      else if pattern_severity p = Some ''medium'' then 0.1 else 0)"

definition pattern_kinds :: "pattern list \<Rightarrow> (string \<times> string option) list" where
  \<comment> \<open>the type and severity of each pattern\<close>
  "pattern_kinds ps = map (\<lambda>p. (pattern_type p, pattern_severity p)) ps"

definition buffer_of :: "string list \<Rightarrow> real \<Rightarrow> buffer_entry list" where
  \<comment> \<open>one entry per app name, one minute apart from 09:00, each with the given duration\<close>
  "buffer_of apps secs =
     map (\<lambda>(i, a). \<lparr>app_name = a, timestamp = at_time 0 9 (int i), user_id = ''u'',
                     session_duration = secs, interactions = 1\<rparr>)
       (zip [0..<length apps] apps)"

definition example_buffer :: "buffer_entry list" where
  "example_buffer =
     buffer_of [''A'', ''B'', ''C'', ''D'', ''E'', ''A'', ''B'', ''C'', ''D'', ''E''] 800"

section \<open>Continuity calculator: results\<close>

lemma running_totals_head: "run \<in> set (running_totals prev run rest)"
  by (cases rest) simp_all

lemma running_totals_nonempty: "set (running_totals prev run rest) \<noteq> {}"
  by (cases rest) simp_all

lemma running_totals_Max_ge: "run \<le> Max (set (running_totals prev run rest))"
  by (rule Max_ge) (simp_all add: running_totals_head)

lemma max_continuous_loop_Max:
  "0 \<le> mx \<Longrightarrow> 0 \<le> cur \<Longrightarrow> \<forall>s\<in>set rest. 0 \<le> duration s \<Longrightarrow>
   (case max_continuous_loop prev mx cur rest of (m, c) \<Rightarrow> max m c)
     = max mx (Max (set (running_totals prev cur rest)))"
proof (induction rest arbitrary: prev mx cur)
  case Nil
  then show ?case by simp
next
  case (Cons s rest)
  have d: "0 \<le> duration s" and rest: "\<forall>x\<in>set rest. 0 \<le> duration x"
    using Cons.prems(3) by simp_all
  show ?case
  proof (cases "time_gap prev s < 5")
    case True
    have ne: "set (running_totals s (cur + duration s) rest) \<noteq> {}"
      by (rule running_totals_nonempty)
    have "cur \<le> Max (set (running_totals s (cur + duration s) rest))"
      using running_totals_Max_ge [of "cur + duration s" s rest] d by linarith
    then have "Max (insert cur (set (running_totals s (cur + duration s) rest)))
                 = Max (set (running_totals s (cur + duration s) rest))"
      using ne by (simp add: max_absorb2)
    moreover have "0 \<le> cur + duration s" using Cons.prems(2) d by simp
    ultimately show ?thesis
      using True Cons.IH [OF Cons.prems(1) _ rest, of "cur + duration s" s] by simp
  next
    case False
    have ne: "set (running_totals s (duration s) rest) \<noteq> {}"
      by (rule running_totals_nonempty)
    have "0 \<le> max mx cur" using Cons.prems(1) by simp
    from Cons.IH [OF this d rest, of s] False ne show ?thesis
      by (simp add: max.assoc)
  qed
qed

lemma scenario_sessions_value: "calculate_max_continuous scenario_sessions = 30"
  by (simp add: calculate_max_continuous_def scenario_sessions_def time_gap_def
      total_seconds_def at_time_def)

text \<open>
  C2. For every session list with non-negative durations (the data model's durations),
  \<^verbatim>\<open>_calculate_max_continuous\<close> returns the largest running total seen during the walk,
  where the running total accumulates while the gap to the previous session is strictly
  below 5 minutes and restarts at the session's own duration otherwise. The empty list
  gives 0, a single session gives its duration, and the scenario of three sessions 3
  minutes apart (durations 10, 10, 10) followed after a 10-minute gap by a session of
  duration 5 gives 30. The order of the timestamps is not needed for the result.
\<close>

theorem max_continuous_is_largest_running_total:
  assumes "\<forall>s\<in>set sessions. 0 \<le> duration s"
  shows "calculate_max_continuous sessions = spec_max_continuous sessions
       \<and> calculate_max_continuous [] = 0
       \<and> (0 \<le> duration s1 \<longrightarrow> calculate_max_continuous [s1] = duration s1)
       \<and> calculate_max_continuous scenario_sessions = 30"
proof -
  have "calculate_max_continuous sessions = spec_max_continuous sessions"
  proof (cases sessions)
    case Nil
    then show ?thesis by (simp add: calculate_max_continuous_def spec_max_continuous_def)
  next
    case (Cons s0 rest)
    have d: "0 \<le> duration s0" and rest: "\<forall>x\<in>set rest. 0 \<le> duration x"
      using assms Cons by simp_all
    have "0 \<le> Max (set (running_totals s0 (duration s0) rest))"
      using running_totals_Max_ge [of "duration s0" s0 rest] d by linarith
    then show ?thesis
      using max_continuous_loop_Max [OF _ d rest, of 0 s0] Cons
      by (simp add: calculate_max_continuous_def spec_max_continuous_def)
  qed
  moreover have "calculate_max_continuous [] = 0"
    by (simp add: calculate_max_continuous_def)
  moreover have "0 \<le> duration s1 \<longrightarrow> calculate_max_continuous [s1] = duration s1"
    by (simp add: calculate_max_continuous_def)
  ultimately show ?thesis using scenario_sessions_value by simp
qed

theorem max_continuous_is_largest_running_total_witness:
  "calculate_max_continuous scenario_sessions = spec_max_continuous scenario_sessions
   \<and> spec_max_continuous scenario_sessions = 30
   \<and> calculate_max_continuous [hd scenario_sessions] = 10"
proof -
  have h: "\<forall>s\<in>set scenario_sessions. 0 \<le> duration s"
    by (simp add: scenario_sessions_def)
  have d: "duration (hd scenario_sessions) = 10"
    by (simp add: scenario_sessions_def)
  from max_continuous_is_largest_running_total [OF h, of "hd scenario_sessions"] d
  show ?thesis by simp
qed

section \<open>Rule-based risk scorer: results\<close>

text \<open>
  C1. For every day record the rule-based scorer returns risk\_level = min(score, 3),
  risk\_probability = min(score/7, 1) and the label of that level, where the score is the
  highest matching usage tier (3, 2, 1 or 0) plus 2 for night usage above 60 plus 2 for
  more than 3 binge sessions. The label table maps 0, 1, 2, 3 to Low, Moderate, High,
  Critical and every other level to Unknown. Days with total 400 or 500 and zero night and
  binge inputs are level 3, Critical; a day with total 50 is level 0, Low.
\<close>

theorem rule_based_prediction_formula:
  "rule_based_prediction d =
     \<lparr>risk_level = min (spec_risk_score d) 3,
      risk_probability = min (real_of_int (spec_risk_score d) / 7) 1,
      risk_label = get_risk_label (min (spec_risk_score d) 3)\<rparr>
   \<and> get_risk_label 0 = ''Low'' \<and> get_risk_label 1 = ''Moderate''
   \<and> get_risk_label 2 = ''High'' \<and> get_risk_label 3 = ''Critical''
   \<and> (\<forall>l. l \<notin> {0, 1, 2, 3} \<longrightarrow> get_risk_label l = ''Unknown'')
   \<and> risk_level (rule_based_prediction (day_with_total 400)) = 3
   \<and> risk_label (rule_based_prediction (day_with_total 400)) = ''Critical''
   \<and> risk_level (rule_based_prediction (day_with_total 500)) = 3
   \<and> risk_label (rule_based_prediction (day_with_total 500)) = ''Critical''
   \<and> risk_level (rule_based_prediction (day_with_total 50)) = 0
   \<and> risk_label (rule_based_prediction (day_with_total 50)) = ''Low''"
proof -
  have "rule_based_prediction d =
     \<lparr>risk_level = min (spec_risk_score d) 3,
      risk_probability = min (real_of_int (spec_risk_score d) / 7) 1,
      risk_label = get_risk_label (min (spec_risk_score d) 3)\<rparr>"
    by (simp add: rule_based_prediction_def spec_risk_score_def usage_tier_def Let_def)
  moreover have "\<forall>l. l \<notin> {0, 1, 2, 3} \<longrightarrow> get_risk_label l = ''Unknown''"
    by (simp add: get_risk_label_def labels_def)
  moreover have "risk_level (rule_based_prediction (day_with_total 400)) = 3"
    "risk_label (rule_based_prediction (day_with_total 400)) = ''Critical''"
    "risk_level (rule_based_prediction (day_with_total 500)) = 3"
    "risk_label (rule_based_prediction (day_with_total 500)) = ''Critical''"
    "risk_level (rule_based_prediction (day_with_total 50)) = 0"
    "risk_label (rule_based_prediction (day_with_total 50)) = ''Low''"
    by (simp_all add: rule_based_prediction_def day_with_total_def zero_record_def
        get_risk_label_def labels_def)
  ultimately show ?thesis
    by (simp add: get_risk_label_def labels_def)
qed

theorem rule_based_prediction_formula_witness:
  "(4::int) \<notin> {0, 1, 2, 3} \<and> get_risk_label 4 = ''Unknown''
   \<and> rule_based_prediction (day_with_total 400) =
       \<lparr>risk_level = 3, risk_probability = 3 / 7, risk_label = ''Critical''\<rparr>"
proof -
  have s: "spec_risk_score (day_with_total 400) = 3"
    by (simp add: spec_risk_score_def usage_tier_def day_with_total_def zero_record_def)
  from rule_based_prediction_formula [of "day_with_total 400"] s
  show ?thesis by simp
qed

section \<open>Session aggregator: results\<close>

lemma sum_four_way_split:
  assumes "\<And>x. x \<in> set xs \<Longrightarrow>
             (if P1 x then 1 else 0) + (if P2 x then 1 else 0)
             + (if P3 x then 1 else 0) + (if P4 x then 1 else (0::nat)) = 1"
  shows "sum_list (map f (filter P1 xs)) + sum_list (map f (filter P2 xs))
         + sum_list (map f (filter P3 xs)) + sum_list (map f (filter P4 xs))
         = (sum_list (map f xs) :: real)"
  using assms
proof (induction xs)
  case Nil
  then show ?case by simp
next
  case (Cons x xs)
  have one: "(if P1 x then 1 else 0) + (if P2 x then 1 else 0)
             + (if P3 x then 1 else 0) + (if P4 x then 1 else (0::nat)) = 1"
    using Cons.prems by simp
  have IH: "sum_list (map f (filter P1 xs)) + sum_list (map f (filter P2 xs))
         + sum_list (map f (filter P3 xs)) + sum_list (map f (filter P4 xs))
         = sum_list (map f xs)"
    using Cons.IH Cons.prems by simp
  from one IH show ?case
    by (cases "P1 x"; cases "P2 x"; cases "P3 x"; cases "P4 x") simp_all
qed

lemma aggregate_buckets_sum:
  assumes "aggregate_daily_data raw_logs target_date = Some r"
  shows "buckets_sum_to_total r"
proof -
  let ?ds = "filter (\<lambda>log. date_of (timestamp log) = target_date) raw_logs"
  have split: "sum_duration_if (\<lambda>s. 6 \<le> hour_of (timestamp s) \<and> hour_of (timestamp s) < 12) ?ds
      + sum_duration_if (\<lambda>s. 12 \<le> hour_of (timestamp s) \<and> hour_of (timestamp s) < 18) ?ds
      + sum_duration_if (\<lambda>s. 18 \<le> hour_of (timestamp s) \<and> hour_of (timestamp s) < 22) ?ds
      + sum_duration_if (\<lambda>s. hour_of (timestamp s) \<ge> 22 \<or> hour_of (timestamp s) < 6) ?ds
      = sum_list (map duration ?ds)"
    unfolding sum_duration_if_def by (rule sum_four_way_split) auto
  from assms have "?ds \<noteq> []"
    by (auto simp: aggregate_daily_data_def Let_def split: if_splits)
  with assms split show ?thesis
    by (auto simp: aggregate_daily_data_def Let_def buckets_sum_to_total_def)
qed

lemma update_day_buckets:
  "buckets_sum_to_total day_data \<Longrightarrow> buckets_sum_to_total (update_day log' day_data)"
  by (simp add: buckets_sum_to_total_def update_day_def Let_def)

lemma new_day_buckets: "buckets_sum_to_total (new_day d)"
  by (simp add: buckets_sum_to_total_def new_day_def)

lemma process_log_buckets:
  assumes "\<forall>r\<in>snd ` set daily_data. buckets_sum_to_total r"
  shows "\<forall>r\<in>snd ` set (process_log daily_data log'). buckets_sum_to_total r"
  using assms
  by (auto simp: process_log_def Let_def new_day_buckets update_day_buckets
      split: if_splits)

lemma foldl_process_log_buckets:
  "\<forall>r\<in>snd ` set daily_data. buckets_sum_to_total r \<Longrightarrow>
   \<forall>r\<in>snd ` set (foldl process_log daily_data logs). buckets_sum_to_total r"
proof (induction logs arbitrary: daily_data)
  case Nil
  then show ?case by simp
next
  case (Cons l logs)
  show ?case
    using Cons.IH [OF process_log_buckets [OF Cons.prems, of l]] by simp
qed

text \<open>
  With exact sums, the aggregate that \<^verbatim>\<open>aggregate_daily_data\<close> returns for a target
  date, and every per-date record that \<^verbatim>\<open>process_logs_to_daily\<close> builds, satisfies
  morning + afternoon + evening + night usage = total duration: each session's duration
  goes to exactly one bucket. This is a fact about exact arithmetic only. The program adds
  Python floats, in a different order for the total and for the buckets, so its own two
  sides can differ in the last bit.
\<close>

lemma exact_buckets_partition_total:
  "(\<forall>r. aggregate_daily_data raw_logs target_date = Some r \<longrightarrow> buckets_sum_to_total r)
   \<and> (\<forall>r\<in>set (process_logs_to_daily raw_logs). buckets_sum_to_total r)"
proof
  show "\<forall>r. aggregate_daily_data raw_logs target_date = Some r \<longrightarrow> buckets_sum_to_total r"
    using aggregate_buckets_sum by blast
  have "\<forall>r\<in>snd ` set (foldl process_log [] raw_logs). buckets_sum_to_total r"
    by (rule foldl_process_log_buckets) simp
  then show "\<forall>r\<in>set (process_logs_to_daily raw_logs). buckets_sum_to_total r"
    by (simp add: process_logs_to_daily_def)
qed

lemma exact_buckets_partition_total_example:
  "(\<exists>r. aggregate_daily_data example_logs 7 = Some r \<and> buckets_sum_to_total r)
   \<and> length (process_logs_to_daily example_logs) = 2
   \<and> buckets_sum_to_total (process_logs_to_daily example_logs ! 0)
   \<and> buckets_sum_to_total (process_logs_to_daily example_logs ! 1)"
proof -
  have "filter (\<lambda>log. date_of (timestamp log) = 7) example_logs \<noteq> []"
    by (simp add: example_logs_def date_of_def at_time_def)
  then obtain r where r: "aggregate_daily_data example_logs 7 = Some r"
    by (auto simp: aggregate_daily_data_def Let_def)
  have len: "length (process_logs_to_daily example_logs) = 2"
    by (simp add: process_logs_to_daily_def process_log_def example_logs_def date_of_def
        at_time_def Let_def)
  then have "process_logs_to_daily example_logs ! 0 \<in> set (process_logs_to_daily example_logs)"
    and "process_logs_to_daily example_logs ! 1 \<in> set (process_logs_to_daily example_logs)"
    by simp_all
  with exact_buckets_partition_total [of example_logs 7] r len show ?thesis
    by blast
qed

text \<open>
  C5. The hour ranges of the data model are [6,12) morning, [12,18) afternoon, [18,22)
  evening and [22,24) with [0,6) night. \<^verbatim>\<open>aggregate_daily_data\<close> counts a session at hour
  6 as morning and one at hour 12 as afternoon; \<^verbatim>\<open>process_logs_to_daily\<close> counts the
  session at hour 6 as night and the one at hour 12 as morning (its tests are
  \<^verbatim>\<open>hour <= 6\<close>, \<^verbatim>\<open>6 < hour <= 12\<close>, \<^verbatim>\<open>12 < hour <= 18\<close>).
\<close>

theorem bucket_boundaries_differ:
  "map_option morning_usage (aggregate_daily_data [log_at_hour 6] 0) = Some 10
   \<and> map_option night_usage (aggregate_daily_data [log_at_hour 6] 0) = Some 0
   \<and> map morning_usage (process_logs_to_daily [log_at_hour 6]) = [0]
   \<and> map night_usage (process_logs_to_daily [log_at_hour 6]) = [10]
   \<and> map_option afternoon_usage (aggregate_daily_data [log_at_hour 12] 0) = Some 10
   \<and> map_option morning_usage (aggregate_daily_data [log_at_hour 12] 0) = Some 0
   \<and> map afternoon_usage (process_logs_to_daily [log_at_hour 12]) = [0]
   \<and> map morning_usage (process_logs_to_daily [log_at_hour 12]) = [10]"
  by (simp add: aggregate_daily_data_def process_logs_to_daily_def process_log_def
      update_day_def new_day_def log_at_hour_def at_time_def date_of_def hour_of_def
      sum_duration_if_def Let_def)

lemma aggregate_date:
  "aggregate_daily_data raw_logs target_date = Some r \<Longrightarrow> date r = target_date"
  by (auto simp: aggregate_daily_data_def Let_def split: if_splits)

lemma aggregate_None_iff:
  "aggregate_daily_data raw_logs target_date = None
   \<longleftrightarrow> (\<forall>l\<in>set raw_logs. date_of (timestamp l) \<noteq> target_date)"
  by (auto simp: aggregate_daily_data_def Let_def filter_empty_conv)

lemma three_day_entry_some:
  assumes "\<exists>l\<in>set raw_logs. date_of (timestamp l) = today - i"
  shows "aggregate_daily_data raw_logs (today - i) = Some (three_day_entry raw_logs today i)"
proof (cases "aggregate_daily_data raw_logs (today - i)")
  case None
  then show ?thesis
    using assms aggregate_None_iff [of raw_logs "today - i"] by simp
next
  case (Some r)
  then show ?thesis by (simp add: three_day_entry_def)
qed

lemma three_day_entry_zero:
  assumes "\<forall>l\<in>set raw_logs. date_of (timestamp l) \<noteq> today - i"
  shows "three_day_entry raw_logs today i = zero_record (today - i)"
  using assms aggregate_None_iff [of raw_logs "today - i"]
  by (simp add: three_day_entry_def)

lemma three_day_entry_date: "date (three_day_entry raw_logs today i) = today - i"
  by (cases "aggregate_daily_data raw_logs (today - i)")
    (simp_all add: three_day_entry_def zero_record_def aggregate_date)

text \<open>
  C9. For every raw log list and every value of today, \<^verbatim>\<open>get_three_day_data\<close> returns
  exactly 3 records, dated today - 2, today - 1 and today in that order. The record of a
  day on which some event falls is that day's aggregate; the record of a day with no event
  is the all-zero record of that date (every duration, count, bucket, binge, continuity
  and category field is 0). The empty log list gives the three all-zero records.
\<close>

theorem three_day_data_zero_filled:
  "length (get_three_day_data today raw_logs) = 3
   \<and> map date (get_three_day_data today raw_logs) = [today - 2, today - 1, today]
   \<and> (\<forall>k<3. let d = today - 2 + int k; r = get_three_day_data today raw_logs ! k
             in if \<exists>l\<in>set raw_logs. date_of (timestamp l) = d
                then aggregate_daily_data raw_logs d = Some r
                else r = zero_record d)
   \<and> get_three_day_data today [] =
       [zero_record (today - 2), zero_record (today - 1), zero_record today]
   \<and> zero_record d =
       \<lparr>date = d, total_duration = 0, session_count = 0, morning_usage = 0,
        afternoon_usage = 0, evening_usage = 0, night_usage = 0, binge_sessions = 0,
        max_continuous_usage = 0, social_media_time = 0, entertainment_time = 0,
        productivity_time = 0, other_time = 0\<rparr>"
proof -
  have each: "\<forall>k<3. let d = today - 2 + int k; r = get_three_day_data today raw_logs ! k
             in if \<exists>l\<in>set raw_logs. date_of (timestamp l) = d
                then aggregate_daily_data raw_logs d = Some r
                else r = zero_record d"
  proof (intro allI impI)
    fix k :: nat
    assume "k < 3"
    then consider "k = 0" | "k = 1" | "k = 2" by linarith
    then show "let d = today - 2 + int k; r = get_three_day_data today raw_logs ! k
             in if \<exists>l\<in>set raw_logs. date_of (timestamp l) = d
                then aggregate_daily_data raw_logs d = Some r
                else r = zero_record d"
    proof cases
      case 1
      then show ?thesis using three_day_entry_some [of raw_logs today 2] three_day_entry_zero [of raw_logs today 2]
        by (simp add: get_three_day_data_def Let_def)
    next
      case 2
      then show ?thesis using three_day_entry_some [of raw_logs today 1] three_day_entry_zero [of raw_logs today 1]
        by (simp add: get_three_day_data_def Let_def)
    next
      case 3
      then show ?thesis using three_day_entry_some [of raw_logs today 0] three_day_entry_zero [of raw_logs today 0]
        by (simp add: get_three_day_data_def Let_def)
    qed
  qed
  have empty: "get_three_day_data today [] =
       [zero_record (today - 2), zero_record (today - 1), zero_record today]"
    by (simp add: get_three_day_data_def three_day_entry_def aggregate_daily_data_def)
  have "map date (get_three_day_data today raw_logs) = [today - 2, today - 1, today]"
    by (simp add: get_three_day_data_def three_day_entry_date)
  with each empty show ?thesis
    by (simp add: get_three_day_data_def zero_record_def)
qed

theorem three_day_data_zero_filled_witness:
  "get_three_day_data 8 example_logs ! 0 = zero_record 6
   \<and> aggregate_daily_data example_logs 7 = Some (get_three_day_data 8 example_logs ! 1)
   \<and> aggregate_daily_data example_logs 8 = Some (get_three_day_data 8 example_logs ! 2)
   \<and> length (get_three_day_data 8 example_logs) = 3"
proof -
  have d6: "\<not> (\<exists>l\<in>set example_logs. date_of (timestamp l) = 6)"
    and d7: "\<exists>l\<in>set example_logs. date_of (timestamp l) = 7"
    and d8: "\<exists>l\<in>set example_logs. date_of (timestamp l) = 8"
    by (simp_all add: example_logs_def date_of_def at_time_def)
  have all: "\<forall>k<3. let d = 8 - 2 + int k; r = get_three_day_data 8 example_logs ! k
             in if \<exists>l\<in>set example_logs. date_of (timestamp l) = d
                then aggregate_daily_data example_logs d = Some r
                else r = zero_record d"
    and len: "length (get_three_day_data 8 example_logs) = 3"
    using three_day_data_zero_filled [of 8 example_logs] by blast+
  from all [rule_format, of 0] all [rule_format, of 1] all [rule_format, of 2]
    d6 d7 d8 len
  show ?thesis by (simp add: Let_def)
qed

lemma social_not_entertainment: "x \<in> social_apps \<Longrightarrow> x \<notin> entertainment_apps"
  by (auto simp: social_apps_def entertainment_apps_def)

lemma social_not_productivity: "x \<in> social_apps \<Longrightarrow> x \<notin> productivity_apps"
  by (auto simp: social_apps_def productivity_apps_def)

lemma entertainment_not_productivity: "x \<in> entertainment_apps \<Longrightarrow> x \<notin> productivity_apps"
  by (auto simp: entertainment_apps_def productivity_apps_def)

lemma sum_list_filter_nonneg:
  "\<forall>x\<in>set xs. 0 \<le> f x \<Longrightarrow> 0 \<le> (sum_list (map f (filter P xs)) :: real)"
  by (rule sum_list_nonneg) auto

text \<open>
  With exact sums and non-negative durations, the aggregate that
  \<^verbatim>\<open>aggregate_daily_data\<close> returns satisfies social + entertainment + productivity +
  other time = total duration, and the remainder total - social - entertainment -
  productivity is not negative, because the three category app-name sets are pairwise
  disjoint. This is a fact about exact arithmetic only. The program subtracts float sums,
  so when every session is in a named category its remainder is rounding noise of either
  sign, and the floor at 0 can bind.
\<close>

lemma exact_categories_sum_to_total:
  assumes "aggregate_daily_data raw_logs target_date = Some r"
    and "\<forall>l\<in>set raw_logs. 0 \<le> duration l"
  shows "social_media_time r + entertainment_time r + productivity_time r + other_time r
           = total_duration r
       \<and> 0 \<le> total_duration r - social_media_time r - entertainment_time r - productivity_time r
       \<and> social_apps \<inter> entertainment_apps = {}
       \<and> social_apps \<inter> productivity_apps = {}
       \<and> entertainment_apps \<inter> productivity_apps = {}"
proof -
  let ?ds = "filter (\<lambda>log. date_of (timestamp log) = target_date) raw_logs"
  let ?rest = "\<lambda>s. app_name s \<notin> social_apps \<and> app_name s \<notin> entertainment_apps
                   \<and> app_name s \<notin> productivity_apps"
  have split: "sum_duration_if (\<lambda>s. app_name s \<in> social_apps) ?ds
      + sum_duration_if (\<lambda>s. app_name s \<in> entertainment_apps) ?ds
      + sum_duration_if (\<lambda>s. app_name s \<in> productivity_apps) ?ds
      + sum_duration_if ?rest ?ds
      = sum_list (map duration ?ds)"
    unfolding sum_duration_if_def
    by (rule sum_four_way_split)
      (auto dest: social_not_entertainment social_not_productivity
        entertainment_not_productivity)
  have "\<forall>l\<in>set ?ds. 0 \<le> duration l" using assms(2) by simp
  then have rest: "0 \<le> sum_duration_if ?rest ?ds"
    unfolding sum_duration_if_def by (rule sum_list_filter_nonneg)
  from assms(1) have ne: "?ds \<noteq> []"
    by (auto simp: aggregate_daily_data_def Let_def split: if_splits)
  from assms(1) ne have fields:
    "total_duration r = sum_list (map duration ?ds)"
    "social_media_time r = sum_duration_if (\<lambda>s. app_name s \<in> social_apps) ?ds"
    "entertainment_time r = sum_duration_if (\<lambda>s. app_name s \<in> entertainment_apps) ?ds"
    "productivity_time r = sum_duration_if (\<lambda>s. app_name s \<in> productivity_apps) ?ds"
    "other_time r = max 0 (total_duration r - social_media_time r - entertainment_time r
                            - productivity_time r)"
    by (auto simp: aggregate_daily_data_def Let_def)
  have nonneg: "0 \<le> total_duration r - social_media_time r - entertainment_time r
                    - productivity_time r"
    using split rest fields(1-4) by linarith
  have disj: "social_apps \<inter> entertainment_apps = {}" "social_apps \<inter> productivity_apps = {}"
    "entertainment_apps \<inter> productivity_apps = {}"
    using social_not_entertainment social_not_productivity entertainment_not_productivity
    by blast+
  from nonneg fields(5) have "other_time r = total_duration r - social_media_time r
      - entertainment_time r - productivity_time r"
    by simp
  with nonneg disj show ?thesis by simp
qed

lemma exact_categories_sum_to_total_example:
  "\<exists>r. aggregate_daily_data example_logs 7 = Some r
       \<and> social_media_time r + entertainment_time r + productivity_time r + other_time r
           = total_duration r
       \<and> social_media_time r = 50 \<and> productivity_time r = 20 \<and> total_duration r = 85"
proof -
  have "filter (\<lambda>log. date_of (timestamp log) = 7) example_logs \<noteq> []"
    by (simp add: example_logs_def date_of_def at_time_def)
  then obtain r where r: "aggregate_daily_data example_logs 7 = Some r"
    by (auto simp: aggregate_daily_data_def Let_def)
  have nonneg: "\<forall>l\<in>set example_logs. 0 \<le> duration l"
    by (simp add: example_logs_def)
  have ds: "filter (\<lambda>log. date_of (timestamp log) = 7) example_logs = take 3 example_logs"
    by (simp add: example_logs_def date_of_def at_time_def)
  from r have "social_media_time r = 50" "productivity_time r = 20" "total_duration r = 85"
    unfolding aggregate_daily_data_def Let_def ds
    by (auto simp: example_logs_def sum_duration_if_def social_apps_def productivity_apps_def)
  with exact_categories_sum_to_total [OF r nonneg] r show ?thesis by blast
qed

section \<open>Anomaly detector: results\<close>

lemma last_n_window: "last_n 14 features = window features"
  by (simp add: last_n_def window_def)

lemma np_mean_last3:
  assumes "3 \<le> length w"
  shows "np_mean (last_n 3 (map col w)) = Some (mean_last3 col w)"
proof -
  let ?n = "length w"
  have len: "length (last_n 3 (map col w)) = 3"
    using assms by (simp add: last_n_def)
  have "sum_list (last_n 3 (map col w)) = (\<Sum>i<3. last_n 3 (map col w) ! i)"
    using len by (simp add: sum_list_sum_nth atLeast0LessThan)
  also have "\<dots> = (\<Sum>i<3. col (w ! (?n - 3 + i)))"
    using assms by (intro sum.cong) (auto simp: last_n_def)
  also have "\<dots> = col (w ! (?n - 3)) + col (w ! (?n - 2)) + col (w ! (?n - 1))"
  proof -
    have three: "(\<Sum>i<3. g (k + i)) = g k + g (k + 1) + g (k + 2)"
      for g :: "nat \<Rightarrow> real" and k :: nat
      by (simp add: numeral_3_eq_3 lessThan_Suc)
    have e: "?n - 2 = ?n - 3 + 1" "?n - 1 = ?n - 3 + 2" using assms by linarith+
    show ?thesis unfolding e by (rule three)
  qed
  finally have "sum_list (last_n 3 (map col w))
       = col (w ! (?n - 3)) + col (w ! (?n - 2)) + col (w ! (?n - 1))" .
  moreover have "last_n 3 (map col w) \<noteq> []" using len by auto
  ultimately show ?thesis using len by (simp add: np_mean_def mean_last3_def)
qed

lemma np_mean_earlier:
  assumes "3 < length w"
  shows "np_mean (all_but_last_n 3 (map col w)) = Some (mean_earlier col w)"
proof -
  let ?k = "length w - 3"
  have eq: "all_but_last_n 3 (map col w) = take ?k (map col w)"
    using assms by (simp add: all_but_last_n_def)
  have len: "length (take ?k (map col w)) = ?k" by simp
  have "sum_list (take ?k (map col w)) = (\<Sum>i<?k. take ?k (map col w) ! i)"
    unfolding sum_list_sum_nth len by (simp add: atLeast0LessThan)
  also have "\<dots> = (\<Sum>i<?k. col (w ! i))"
    by (intro sum.cong) auto
  finally have "sum_list (take ?k (map col w)) = (\<Sum>i<?k. col (w ! i))" .
  moreover have "take ?k (map col w) \<noteq> []" using assms by auto
  ultimately show ?thesis using eq by (simp add: np_mean_def mean_earlier_def)
qed

lemma length_window: "length (window features) = min (length features) 14"
  by (simp add: window_def)

text \<open>
  C6. With fewer than 5 rows \<^verbatim>\<open>_detect_behavioral_anomalies\<close> returns the empty list.
  Otherwise it works on the most recent 14 rows (all rows when there are 5 to 13) and
  reports, independently and in this order: a usage spike when the mean total duration of
  the last 3 rows exceeds 1.5 times the mean of all earlier rows of the window, with
  severity high when it exceeds 2 times that mean and medium otherwise; a night-usage
  increase when the mean night session count of the last 3 rows exceeds 2 times the
  earlier mean; binge behaviour, with severity high, when the mean binge score of the last
  3 rows exceeds 0.3.
\<close>

theorem anomaly_detection:
  "(length features < 5 \<longrightarrow> detect_behavioral_anomalies features = [])
   \<and> (5 \<le> length features \<longrightarrow>
        (let w = window features in
           length w = min (length features) 14
           \<and> (length features \<le> 14 \<longrightarrow> w = features)
           \<and> (14 \<le> length features \<longrightarrow> w = drop (length features - 14) features)
           \<and> map (\<lambda>a. (anomaly_type a, anomaly_severity a)) (detect_behavioral_anomalies features)
               = (if mean_last3 col_total_duration w > 1.5 * mean_earlier col_total_duration w
                  then [(''usage_spike'',
                         if mean_last3 col_total_duration w > 2 * mean_earlier col_total_duration w
                         then ''high'' else ''medium'')]
                  else [])
                 @ (if mean_last3 col_night_usage w > 2 * mean_earlier col_night_usage w
                    then [(''night_usage_increase'', ''medium'')] else [])
                 @ (if mean_last3 col_binge_score w > 0.3
                    then [(''binge_behavior'', ''high'')] else [])))"
proof (intro conjI impI)
  show "detect_behavioral_anomalies features = []" if "length features < 5"
    using that by (simp add: detect_behavioral_anomalies_def)
next
  assume n: "5 \<le> length features"
  let ?w = "window features"
  have lw: "length ?w = min (length features) 14" by (rule length_window)
  then have l3: "3 \<le> length ?w" and l4: "3 < length ?w" using n by simp_all
  note means = np_mean_last3 [OF l3] np_mean_earlier [OF l4]
  have spike: "map (\<lambda>a. (anomaly_type a, anomaly_severity a))
                 (usage_spike_check (map col_total_duration ?w))
        = (if mean_last3 col_total_duration ?w > 1.5 * mean_earlier col_total_duration ?w
                  then [(''usage_spike'',
                         if mean_last3 col_total_duration ?w > 2 * mean_earlier col_total_duration ?w
                         then ''high'' else ''medium'')]
                  else [])"
    using l4 by (simp add: usage_spike_check_def means exceeds_def times_def Let_def mult.commute)
  have night: "map (\<lambda>a. (anomaly_type a, anomaly_severity a))
                 (night_usage_check (map col_night_usage ?w))
        = (if mean_last3 col_night_usage ?w > 2 * mean_earlier col_night_usage ?w
                    then [(''night_usage_increase'', ''medium'')] else [])"
    by (simp add: night_usage_check_def means exceeds_def times_def mult.commute)
  have binge: "map (\<lambda>a. (anomaly_type a, anomaly_severity a))
                 (binge_check (map col_binge_score ?w))
        = (if mean_last3 col_binge_score ?w > 0.3
                    then [(''binge_behavior'', ''high'')] else [])"
    by (simp add: binge_check_def means exceeds_def)
  have "map (\<lambda>a. (anomaly_type a, anomaly_severity a)) (detect_behavioral_anomalies features)
      = map (\<lambda>a. (anomaly_type a, anomaly_severity a)) (usage_spike_check (map col_total_duration ?w))
        @ map (\<lambda>a. (anomaly_type a, anomaly_severity a)) (night_usage_check (map col_night_usage ?w))
        @ map (\<lambda>a. (anomaly_type a, anomaly_severity a)) (binge_check (map col_binge_score ?w))"
    using n by (simp add: detect_behavioral_anomalies_def last_n_window Let_def)
  then show "let w = window features in
           length w = min (length features) 14
           \<and> (length features \<le> 14 \<longrightarrow> w = features)
           \<and> (14 \<le> length features \<longrightarrow> w = drop (length features - 14) features)
           \<and> map (\<lambda>a. (anomaly_type a, anomaly_severity a)) (detect_behavioral_anomalies features)
               = (if mean_last3 col_total_duration w > 1.5 * mean_earlier col_total_duration w
                  then [(''usage_spike'',
                         if mean_last3 col_total_duration w > 2 * mean_earlier col_total_duration w
                         then ''high'' else ''medium'')]
                  else [])
                 @ (if mean_last3 col_night_usage w > 2 * mean_earlier col_night_usage w
                    then [(''night_usage_increase'', ''medium'')] else [])
                 @ (if mean_last3 col_binge_score w > 0.3
                    then [(''binge_behavior'', ''high'')] else [])"
    unfolding Let_def spike night binge using lw by (simp add: window_def)
qed

theorem anomaly_detection_witness:
  "map (\<lambda>a. (anomaly_type a, anomaly_severity a)) (detect_behavioral_anomalies example_features)
     = [(''usage_spike'', ''high''), (''binge_behavior'', ''high'')]
   \<and> detect_behavioral_anomalies (take 4 example_features) = []"
proof -
  have n: "5 \<le> length example_features" "length (take 4 example_features) < 5"
    by (simp_all add: example_features_def)
  have w: "window example_features = example_features"
    by (simp add: window_def example_features_def)
  have m: "mean_last3 col_total_duration example_features = 250"
    "mean_earlier col_total_duration example_features = 100"
    "mean_last3 col_night_usage example_features = 1"
    "mean_earlier col_night_usage example_features = 1"
    "mean_last3 col_binge_score example_features = 0.5"
    by (simp_all add: mean_last3_def mean_earlier_def example_features_def feature_day_def
        lessThan_Suc numeral_2_eq_2)
  from anomaly_detection [of example_features] anomaly_detection [of "take 4 example_features"] n
  show ?thesis by (simp add: Let_def w m)
qed

section \<open>Insight generator: results\<close>

lemma sum_index: "(\<Sum>i<n. real i) = real n * (real n - 1) / 2"
  by (induction n) (simp_all add: field_simps)

lemma sum_index_sq6: "6 * (\<Sum>i<n. real i * real i) = (real n - 1) * real n * (2 * real n - 1)"
  by (induction n) (simp_all add: algebra_simps)

lemma sum_index_sq: "(\<Sum>i<n. real i * real i) = (real n - 1) * real n * (2 * real n - 1) / 6"
  using sum_index_sq6 [of n] by simp

lemma sum_list_upt: "sum_list (map f [0..<n]) = (\<Sum>i<n. f i)"
  by (simp add: interv_sum_list_conv_sum_set_nat atLeast0LessThan)

lemma sum_list_zip_upt:
  "sum_list (map (\<lambda>(x, v). x * v) (zip (map real [0..<length y]) y))
     = (\<Sum>i<length y. real i * y ! i)"
proof -
  let ?zs = "map (\<lambda>(x, v). x * v) (zip (map real [0..<length y]) y)"
  have len: "length ?zs = length y" by simp
  have "sum_list ?zs = (\<Sum>i<length y. ?zs ! i)"
    unfolding sum_list_sum_nth len by (simp add: atLeast0LessThan)
  also have "\<dots> = (\<Sum>i<length y. real i * y ! i)"
    by (intro sum.cong) simp_all
  finally show ?thesis .
qed

lemma polyfit_slope_sums:
  "polyfit_slope y =
     (real (length y) * (\<Sum>i<length y. real i * y ! i) - (\<Sum>i<length y. real i) * (\<Sum>i<length y. y ! i))
     / (real (length y) * (\<Sum>i<length y. real i * real i) - (\<Sum>i<length y. real i) * (\<Sum>i<length y. real i))"
proof -
  have sy: "sum_list y = (\<Sum>i<length y. y ! i)"
    by (simp add: sum_list_sum_nth atLeast0LessThan)
  show ?thesis
    unfolding polyfit_slope_def Let_def sum_list_zip_upt
    by (simp add: sum_list_upt sy comp_def)
qed

lemma polyfit_least_squares:
  assumes "2 \<le> length y"
  shows "\<exists>c. \<forall>a b. sq_error y (polyfit_slope y) c \<le> sq_error y a b"
proof -
  define n where "n = real (length y)"
  define sx where "sx = (\<Sum>i<length y. real i)"
  define sxx where "sxx = (\<Sum>i<length y. real i * real i)"
  define sy where "sy = (\<Sum>i<length y. y ! i)"
  define sxy where "sxy = (\<Sum>i<length y. real i * y ! i)"
  define D where "D = n * sxx - sx * sx"
  define S where "S = polyfit_slope y"
  define C where "C = (sy - S * sx) / n"
  define r where "r = (\<lambda>i. y ! i - (S * real i + C))"
  have n2: "2 \<le> n" using assms by (simp add: n_def)
  have D_eq: "D = n * n * (n - 1) * (n + 1) / 12"
    unfolding D_def sx_def sxx_def sum_index sum_index_sq n_def [symmetric]
    by (simp add: field_simps) 
  have D_pos: "0 < D" unfolding D_eq using n2 by simp
  have S_eq: "S * D = n * sxy - sx * sy"
    using D_pos unfolding S_def polyfit_slope_sums D_def n_def sx_def sxx_def sy_def sxy_def
    by simp
  have R0: "(\<Sum>i<length y. r i) = 0"
  proof -
    have "(\<Sum>i<length y. r i) = sy - S * sx - n * C"
      unfolding r_def sy_def sx_def n_def
      by (simp add: sum_subtractf sum.distrib sum_distrib_left algebra_simps)
    also have "\<dots> = 0" using n2 by (simp add: C_def)
    finally show ?thesis .
  qed
  have R1: "(\<Sum>i<length y. real i * r i) = 0"
  proof -
    have e1: "(\<Sum>i<length y. real i * r i) = sxy - S * sxx - C * sx"
      unfolding r_def sxy_def sxx_def sx_def
      by (simp add: sum_subtractf sum.distrib sum_distrib_left algebra_simps)
    have nC: "n * C = sy - S * sx" using n2 by (simp add: C_def)
    have "n * (sxy - S * sxx - C * sx) = n * sxy - n * S * sxx - (n * C) * sx"
      by (simp add: algebra_simps)
    also have "\<dots> = n * sxy - n * S * sxx - (sy - S * sx) * sx"
      by (simp only: nC)
    also have "\<dots> = (n * sxy - sx * sy) - S * D"
      by (simp add: D_def algebra_simps)
    also have "\<dots> = 0" using S_eq by simp
    finally show ?thesis using n2 e1 by simp
  qed
  have "sq_error y S C \<le> sq_error y a b" for a b
  proof -
    define e where "e = (\<lambda>i. (S - a) * real i + (C - b))"
    have "(\<Sum>i<length y. r i * e i)
        = (\<Sum>i<length y. (S - a) * (real i * r i) + (C - b) * r i)"
      by (intro sum.cong) (simp_all add: e_def algebra_simps)
    also have "\<dots> = (S - a) * (\<Sum>i<length y. real i * r i) + (C - b) * (\<Sum>i<length y. r i)"
      by (simp add: sum.distrib sum_distrib_left)
    also have "\<dots> = 0" by (simp add: R0 R1)
    finally have cross: "(\<Sum>i<length y. r i * e i) = 0" .
    have "sq_error y a b = (\<Sum>i<length y. (r i + e i)\<^sup>2)"
      unfolding sq_error_def r_def e_def
      by (intro sum.cong) (simp_all add: algebra_simps)
    also have "\<dots> = (\<Sum>i<length y. (r i)\<^sup>2 + (e i)\<^sup>2 + 2 * (r i * e i))"
      by (intro sum.cong) (simp_all add: power2_sum)
    also have "\<dots> = (\<Sum>i<length y. (r i)\<^sup>2) + (\<Sum>i<length y. (e i)\<^sup>2)
                      + 2 * (\<Sum>i<length y. r i * e i)"
      by (simp add: sum.distrib sum_distrib_left)
    finally have "sq_error y a b = (\<Sum>i<length y. (r i)\<^sup>2) + (\<Sum>i<length y. (e i)\<^sup>2)"
      using cross by simp
    moreover have "0 \<le> (\<Sum>i<length y. (e i)\<^sup>2)" by (intro sum_nonneg) simp
    moreover have "sq_error y S C = (\<Sum>i<length y. (r i)\<^sup>2)"
      by (simp add: sq_error_def r_def)
    ultimately show ?thesis by linarith
  qed
  then show ?thesis unfolding S_def by blast
qed


lemma np_mean_exceeds:
  "exceeds (np_mean (map field days)) (Some c) \<longleftrightarrow> days \<noteq> [] \<and> mean_of field days > c"
  by (simp add: exceeds_def np_mean_def mean_of_def)

lemma np_mean_value:
  "days \<noteq> [] \<Longrightarrow> mean_value (np_mean (map field days)) = mean_of field days"
  by (simp add: mean_value_def np_mean_def mean_of_def)

lemma generate_insights_parts:
  "generate_insights days =
     (if 2 \<le> length days \<and> polyfit_slope (map total_duration days) > 30
      then [\<lparr>insight_type = ''warning'',
             insight_message = Usage_increasing (polyfit_slope (map total_duration days)),
             insight_severity = ''high''\<rparr>]
      else if 2 \<le> length days \<and> polyfit_slope (map total_duration days) < - 30
      then [\<lparr>insight_type = ''positive'',
             insight_message = Usage_decreasing \<bar>polyfit_slope (map total_duration days)\<bar>,
             insight_severity = ''low''\<rparr>]
      else [])
     @ (if days \<noteq> [] \<and> mean_of night_usage days > 60
        then [\<lparr>insight_type = ''warning'',
               insight_message = High_night_usage (mean_of night_usage days),
               insight_severity = ''high''\<rparr>]
        else [])
     @ (if (\<Sum>d\<leftarrow>days. binge_sessions d) > 5
        then [\<lparr>insight_type = ''alert'',
               insight_message = Binge_sessions_detected (\<Sum>d\<leftarrow>days. binge_sessions d),
               insight_severity = ''critical''\<rparr>]
        else [])
     @ (if days \<noteq> [] \<and> mean_of social_media_time days > 180
        then [\<lparr>insight_type = ''warning'',
               insight_message = High_social_media_usage (mean_of social_media_time days),
               insight_severity = ''moderate''\<rparr>]
        else [])"
  unfolding generate_insights_def Let_def np_mean_exceeds
  by (simp add: np_mean_value)

lemma polyfit_slope_3: "polyfit_slope [a, b, c] = (c - a) / 2"
  by (simp add: polyfit_slope_def Let_def upt_rec numeral_3_eq_3 field_simps)

lemma window_with_kinds:
  "kinds (generate_insights (window_with t n b s)) =
     (case t of Rising \<Rightarrow> [(''warning'', ''high'')]
              | Falling \<Rightarrow> [(''positive'', ''low'')]
              | Flat \<Rightarrow> [])
     @ (if n then [(''warning'', ''high'')] else [])
     @ (if b then [(''alert'', ''critical'')] else [])
     @ (if s then [(''warning'', ''moderate'')] else [])"
  unfolding generate_insights_parts
  by (cases t)
    (simp_all add: window_with_def window_day_def zero_record_def polyfit_slope_3 mean_of_def
      kinds_def)

text \<open>
  C7. For every window of daily records \<^verbatim>\<open>generate_insights\<close> appends the results of
  four checks in this order. With at least 2 days, the trend is the slope of a
  least-squares line of total duration against the day index: above 30 it gives a
  warning of severity high, below -30 a positive insight of severity low, and no trend
  insight otherwise or with fewer than 2 days. A mean night usage above 60 gives a warning
  of severity high; more than 5 binge sessions in total give an alert of severity
  critical; a mean social media time above 180 gives a warning of severity moderate. The
  checks are independent: every combination of the trend outcome and the three other
  checks is produced by some 3-day window.
\<close>

theorem generate_insights_checks:
  "generate_insights days =
     (if 2 \<le> length days \<and> polyfit_slope (map total_duration days) > 30
      then [\<lparr>insight_type = ''warning'',
             insight_message = Usage_increasing (polyfit_slope (map total_duration days)),
             insight_severity = ''high''\<rparr>]
      else if 2 \<le> length days \<and> polyfit_slope (map total_duration days) < - 30
      then [\<lparr>insight_type = ''positive'',
             insight_message = Usage_decreasing \<bar>polyfit_slope (map total_duration days)\<bar>,
             insight_severity = ''low''\<rparr>]
      else [])
     @ (if days \<noteq> [] \<and> mean_of night_usage days > 60
        then [\<lparr>insight_type = ''warning'',
               insight_message = High_night_usage (mean_of night_usage days),
               insight_severity = ''high''\<rparr>]
        else [])
     @ (if (\<Sum>d\<leftarrow>days. binge_sessions d) > 5
        then [\<lparr>insight_type = ''alert'',
               insight_message = Binge_sessions_detected (\<Sum>d\<leftarrow>days. binge_sessions d),
               insight_severity = ''critical''\<rparr>]
        else [])
     @ (if days \<noteq> [] \<and> mean_of social_media_time days > 180
        then [\<lparr>insight_type = ''warning'',
               insight_message = High_social_media_usage (mean_of social_media_time days),
               insight_severity = ''moderate''\<rparr>]
        else [])
   \<and> (2 \<le> length days \<longrightarrow>
        (\<exists>c. \<forall>a b. sq_error (map total_duration days) (polyfit_slope (map total_duration days)) c
                      \<le> sq_error (map total_duration days) a b))
   \<and> (\<forall>t n b s. \<exists>w. length w = 3
          \<and> kinds (generate_insights w) =
              (case t of Rising \<Rightarrow> [(''warning'', ''high'')]
                       | Falling \<Rightarrow> [(''positive'', ''low'')]
                       | Flat \<Rightarrow> [])
              @ (if n then [(''warning'', ''high'')] else [])
              @ (if b then [(''alert'', ''critical'')] else [])
              @ (if s then [(''warning'', ''moderate'')] else []))"
proof (intro conjI impI allI)
  show "generate_insights days =
     (if 2 \<le> length days \<and> polyfit_slope (map total_duration days) > 30
      then [\<lparr>insight_type = ''warning'',
             insight_message = Usage_increasing (polyfit_slope (map total_duration days)),
             insight_severity = ''high''\<rparr>]
      else if 2 \<le> length days \<and> polyfit_slope (map total_duration days) < - 30
      then [\<lparr>insight_type = ''positive'',
             insight_message = Usage_decreasing \<bar>polyfit_slope (map total_duration days)\<bar>,
             insight_severity = ''low''\<rparr>]
      else [])
     @ (if days \<noteq> [] \<and> mean_of night_usage days > 60
        then [\<lparr>insight_type = ''warning'',
               insight_message = High_night_usage (mean_of night_usage days),
               insight_severity = ''high''\<rparr>]
        else [])
     @ (if (\<Sum>d\<leftarrow>days. binge_sessions d) > 5
        then [\<lparr>insight_type = ''alert'',
               insight_message = Binge_sessions_detected (\<Sum>d\<leftarrow>days. binge_sessions d),
               insight_severity = ''critical''\<rparr>]
        else [])
     @ (if days \<noteq> [] \<and> mean_of social_media_time days > 180
        then [\<lparr>insight_type = ''warning'',
               insight_message = High_social_media_usage (mean_of social_media_time days),
               insight_severity = ''moderate''\<rparr>]
        else [])"
    by (rule generate_insights_parts)
next
  assume "2 \<le> length days"
  then have "2 \<le> length (map total_duration days)" by simp
  then show "\<exists>c. \<forall>a b. sq_error (map total_duration days) (polyfit_slope (map total_duration days)) c
                      \<le> sq_error (map total_duration days) a b"
    by (rule polyfit_least_squares)
next
  fix t n b s
  have "length (window_with t n b s) = 3"
    by (cases t) (simp_all add: window_with_def)
  then show "\<exists>w. length w = 3
          \<and> kinds (generate_insights w) =
              (case t of Rising \<Rightarrow> [(''warning'', ''high'')]
                       | Falling \<Rightarrow> [(''positive'', ''low'')]
                       | Flat \<Rightarrow> [])
              @ (if n then [(''warning'', ''high'')] else [])
              @ (if b then [(''alert'', ''critical'')] else [])
              @ (if s then [(''warning'', ''moderate'')] else [])"
    using window_with_kinds [of t n b s] by blast
qed

theorem generate_insights_checks_witness:
  "polyfit_slope (map total_duration scenario_days) = 50
   \<and> generate_insights scenario_days =
       [\<lparr>insight_type = ''warning'', insight_message = Usage_increasing 50,
         insight_severity = ''high''\<rparr>]
   \<and> (\<exists>c. \<forall>a b. sq_error [400, 50, 500] 50 c \<le> sq_error [400, 50, 500] a b)"
proof -
  have m: "map total_duration scenario_days = [400, 50, 500]"
    by (simp add: scenario_days_def day_with_total_def zero_record_def)
  have slope: "polyfit_slope [400, 50, 500] = 50"
    by (simp add: polyfit_slope_3)
  have others: "mean_of night_usage scenario_days = 0"
    "(\<Sum>d\<leftarrow>scenario_days. binge_sessions d) = 0"
    "mean_of social_media_time scenario_days = 0"
    by (simp_all add: mean_of_def scenario_days_def day_with_total_def zero_record_def)
  have len: "2 \<le> length scenario_days" "scenario_days \<noteq> []"
    by (simp_all add: scenario_days_def)
  from generate_insights_checks [of scenario_days] len
  show ?thesis by (simp add: m slope others)
qed

section \<open>Grouped sums: results\<close>

lemma dict_add_absent:
  assumes "k \<notin> fst ` set d"
  shows "dict_add k x d = d @ [(k, x)]"
proof -
  have m: "map_of d k = None" using assms by (simp add: map_of_eq_None_iff)
  show ?thesis unfolding dict_add_def m by simp
qed

lemma dict_add_present:
  assumes "k \<in> fst ` set d"
  shows "dict_add k x d = map (\<lambda>(k', v). if k' = k then (k', v + x) else (k', v)) d"
proof -
  have "map_of d k \<noteq> None" using assms by (simp add: map_of_eq_None_iff)
  then obtain v where m: "map_of d k = Some v" by blast
  show ?thesis unfolding dict_add_def m by simp
qed

lemma map_fst_update_in_place:
  "map fst (map (\<lambda>(k', v). if k' = k then (k', v + x) else (k', v)) d) = map fst d"
  by (induction d) auto

lemma dict_add_map_fst:
  "map fst (dict_add k x d) = (if k \<in> fst ` set d then map fst d else map fst d @ [k])"
proof (cases "k \<in> fst ` set d")
  case True
  show ?thesis
    unfolding dict_add_present [OF True] map_fst_update_in_place using True by simp
next
  case False
  show ?thesis
    unfolding dict_add_absent [OF False] using False by simp
qed

lemma dict_add_keys: "fst ` set (dict_add k x d) = insert k (fst ` set d)"
proof -
  have "set (map fst (dict_add k x d)) = insert k (set (map fst d))"
    unfolding dict_add_map_fst by auto
  then show ?thesis by simp
qed

lemma dict_add_distinct: "distinct (map fst d) \<Longrightarrow> distinct (map fst (dict_add k x d))"
  by (simp add: dict_add_map_fst)

lemma map_of_update_in_place:
  "map_of (map (\<lambda>(k', v). if k' = k then (k', v + x) else (k', v)) d) k'
     = (if k' = k then map_option (\<lambda>v. v + x) (map_of d k') else map_of d k')"
  by (induction d) auto

lemma lookup0_absent: "k \<notin> fst ` set d \<Longrightarrow> lookup0 d k = 0"
proof -
  assume "k \<notin> fst ` set d"
  then have m: "map_of d k = None" by (simp add: map_of_eq_None_iff)
  show ?thesis unfolding lookup0_def m by simp
qed

lemma dict_add_lookup0:
  "lookup0 (dict_add k x d) k' = lookup0 d k' + (if k' = k then x else 0)"
proof (cases "k \<in> fst ` set d")
  case False
  have "map_of (d @ [(k, x)]) k' = (if k' = k then Some x else map_of d k')"
  proof (cases "k' = k")
    case True
    have m: "map_of d k = None" using False by (simp add: map_of_eq_None_iff)
    show ?thesis using True by (simp add: map_add_def m)
  next
    case False
    then show ?thesis by (cases "map_of d k'") (simp_all add: map_add_def)
  qed
  then show ?thesis
    using False by (simp add: dict_add_absent lookup0_def lookup0_absent [unfolded lookup0_def])
next
  case True
  then have "map_of d k \<noteq> None" by (simp add: map_of_eq_None_iff)
  then obtain v where m: "map_of d k = Some v" by blast
  show ?thesis
  proof (cases "k' = k")
    case True
    then show ?thesis
      using \<open>k \<in> fst ` set d\<close>
      by (simp add: dict_add_present lookup0_def map_of_update_in_place m)
  next
    case False
    then show ?thesis
      using \<open>k \<in> fst ` set d\<close>
      by (simp add: dict_add_present lookup0_def map_of_update_in_place)
  qed
qed

lemma foldl_dict_add:
  "distinct (map fst d0) \<Longrightarrow>
   distinct (map fst (foldl (\<lambda>d e. dict_add (key e) (val e) d) d0 xs))
   \<and> fst ` set (foldl (\<lambda>d e. dict_add (key e) (val e) d) d0 xs) = fst ` set d0 \<union> key ` set xs
   \<and> (\<forall>k. lookup0 (foldl (\<lambda>d e. dict_add (key e) (val e) d) d0 xs) k
           = lookup0 d0 k + sum_list (map val (filter (\<lambda>e. key e = k) xs)))"
proof (induction xs arbitrary: d0)
  case Nil
  then show ?case by simp
next
  case (Cons e xs)
  have d: "distinct (map fst (dict_add (key e) (val e) d0))"
    using Cons.prems by (rule dict_add_distinct)
  from Cons.IH [OF d] show ?case
    by (auto simp: dict_add_keys dict_add_lookup0)
qed

lemma group_sums_distinct: "distinct (map fst (group_sums key val xs))"
  using foldl_dict_add [of "[]" key val xs] by (simp add: group_sums_def)

lemma group_sums_keys: "fst ` set (group_sums key val xs) = key ` set xs"
  using foldl_dict_add [of "[]" key val xs] by (simp add: group_sums_def)

lemma group_sums_lookup0:
  "lookup0 (group_sums key val xs) k = sum_list (map val (filter (\<lambda>e. key e = k) xs))"
  using foldl_dict_add [of "[]" key val xs] by (simp add: group_sums_def lookup0_def)


lemma distinct_alist_snd:
  assumes "distinct (map fst d)" and "p \<in> set d"
  shows "snd p = lookup0 d (fst p)"
proof -
  have "map_of d (fst p) = Some (snd p)"
    using assms by (cases p) (simp add: map_of_is_SomeI)
  then show ?thesis by (simp add: lookup0_def)
qed



section \<open>Pattern consistency: results\<close>















section \<open>Real-time pattern detector: results\<close>

lemma first_max_fold: "snd (first_max best ps) = fold max (map snd ps) (snd best)"
  by (induction ps arbitrary: best) (auto simp: max_def)

lemma first_max_Max: "snd (first_max p ps) = Max (snd ` set (p # ps))"
proof -
  have "Max (set (snd p # map snd ps)) = fold max (map snd ps) (snd p)"
    by (rule Max.set_eq_fold)
  then show ?thesis by (simp add: first_max_fold)
qed

lemma last_n_drop: "last_n n xs = drop (length xs - n) xs"
  by (simp add: last_n_def)

lemma binge_pattern_minutes:
  assumes "10 \<le> length buf"
  shows "detect_binge_pattern buf =
           (if last20_minutes buf > 60
            then Some (Binge_usage (if last20_minutes buf > 120 then ''high'' else ''medium'')
                         (last20_minutes buf))
            else None)"
proof -
  have "\<not> length (last_n 20 buf) < 5" using assms by (simp add: last_n_def)
  then show ?thesis
    by (simp add: detect_binge_pattern_def Let_def last20_minutes_def last_n_drop)
qed

lemma hour_usage_values:
  "snd ` set (group_sums (\<lambda>e. hour_of (timestamp e)) session_duration buf)
     = (\<lambda>h. sum_list (map session_duration (filter (\<lambda>e. hour_of (timestamp e) = h) buf)))
         ` (\<lambda>e. hour_of (timestamp e)) ` set buf"
proof -
  let ?g = "group_sums (\<lambda>e. hour_of (timestamp e)) session_duration buf"
  have d: "distinct (map fst ?g)" by (rule group_sums_distinct)
  have "snd ` set ?g = (\<lambda>p. lookup0 ?g (fst p)) ` set ?g"
    by (intro image_cong) (simp_all add: distinct_alist_snd [OF d])
  also have "\<dots> = lookup0 ?g ` fst ` set ?g" by (simp add: image_image)
  also have "\<dots> = (\<lambda>h. sum_list (map session_duration (filter (\<lambda>e. hour_of (timestamp e) = h) buf)))
         ` fst ` set ?g"
    by (intro image_cong) (simp_all add: group_sums_lookup0)
  finally show ?thesis by (simp add: group_sums_keys)
qed

lemma Max_div60:
  assumes "finite A" and "A \<noteq> {}"
  shows "Max A / 60 = Max ((\<lambda>v::real. v / 60) ` A)"
  by (rule mono_Max_commute [OF _ assms]) (auto simp: mono_def divide_right_mono)

lemma time_pattern_minutes:
  assumes "buf \<noteq> []"
  shows "\<exists>h. detect_time_patterns buf =
           (if busiest_hour_minutes buf > 60
            then Some (Peak_usage_time h (busiest_hour_minutes buf)) else None)"
proof -
  let ?g = "group_sums (\<lambda>e. hour_of (timestamp e)) session_duration buf"
  have "fst ` set ?g \<noteq> {}" using assms by (simp add: group_sums_keys)
  then obtain p ps where g: "?g = p # ps" by (cases ?g) auto
  have "snd (first_max p ps) / 60 = Max (snd ` set ?g) / 60"
    by (simp add: first_max_Max g)
  also have "\<dots> = Max ((\<lambda>v. v / 60) ` snd ` set ?g)"
    using g by (intro Max_div60) simp_all
  also have "\<dots> = busiest_hour_minutes buf"
    unfolding hour_usage_values busiest_hour_minutes_def
    by (simp add: image_image hour_minutes_def [abs_def])
  finally have peak: "snd (first_max p ps) / 60 = busiest_hour_minutes buf" .
  obtain h v where hv: "first_max p ps = (h, v)" by (cases "first_max p ps")
  with peak have "v / 60 = busiest_hour_minutes buf" by simp
  then have "detect_time_patterns buf =
           (if busiest_hour_minutes buf > 60
            then Some (Peak_usage_time h (busiest_hour_minutes buf)) else None)"
    by (simp add: detect_time_patterns_def Let_def g hv)
  then show ?thesis by blast
qed

lemma app_switching_count:
  assumes "10 \<le> length buf"
  shows "detect_app_switching buf =
           (if 5 \<le> distinct_apps_last10 buf
            then Some (App_switching (distinct_apps_last10 buf)) else None)"
proof -
  have "\<not> length (last_n 10 buf) < 5" using assms by (simp add: last_n_def)
  then show ?thesis
    by (simp add: detect_app_switching_def Let_def distinct_apps_last10_def last_n_drop
        length_remdups_card_conv)
qed

lemma foldl_bonus:
  "foldl (\<lambda>c p. if pattern_severity p = Some ''high'' then c + 0.2
                 else if pattern_severity p = Some ''medium'' then c + 0.1
                 else c) c0 ps
     = c0 + (\<Sum>p\<leftarrow>ps. severity_bonus p)"
  by (induction ps arbitrary: c0) (simp_all add: severity_bonus_def)

lemma confidence_formula:
  assumes "length ps \<le> 3"
  shows "calculate_pattern_confidence ps
           = min (0.3 * real (length ps) + (\<Sum>p\<leftarrow>ps. severity_bonus p)) 1"
proof (cases "ps = []")
  case True
  then show ?thesis by (simp add: calculate_pattern_confidence_def)
next
  case False
  have "real (length ps) * 0.3 \<le> 1" using assms by simp
  then have "min (real (length ps) * 0.3) 1 = 0.3 * real (length ps)" by simp
  with False show ?thesis
    by (simp add: calculate_pattern_confidence_def Let_def foldl_bonus)
qed


lemma example_buffer_entries:
  "map (\<lambda>e. (app_name e, hour_of (timestamp e), session_duration e)) example_buffer =
     [(''A'', 9, 800), (''B'', 9, 800), (''C'', 9, 800), (''D'', 9, 800), (''E'', 9, 800),
      (''A'', 9, 800), (''B'', 9, 800), (''C'', 9, 800), (''D'', 9, 800), (''E'', 9, 800)]"
  by (simp add: example_buffer_def buffer_of_def hour_of_def at_time_def upt_rec)

text \<open>
  C8. With fewer than 10 buffer entries \<^verbatim>\<open>detect_patterns\<close> returns no pattern and
  confidence 0. Otherwise it reports, in this order: a binge pattern iff the durations of
  the last 20 entries sum to more than 60 minutes, with severity high iff the sum is more
  than 120 minutes and medium otherwise; a peak-hour pattern iff the summed duration of
  the busiest hour of day is more than 60 minutes; an app-switching pattern iff the last
  10 entries hold at least 5 distinct app names. The confidence is
  min(0.3 * pattern count + the sum of 0.2 per high and 0.1 per medium pattern, 1).
\<close>

theorem detect_patterns_checks:
  "(length buf < 10 \<longrightarrow> detect_patterns buf = \<lparr>patterns = [], confidence = 0\<rparr>)
   \<and> (10 \<le> length buf \<longrightarrow>
        pattern_kinds (patterns (detect_patterns buf)) =
          (if last20_minutes buf > 60
           then [(''binge_usage'',
                  Some (if last20_minutes buf > 120 then ''high'' else ''medium''))]
           else [])
          @ (if busiest_hour_minutes buf > 60 then [(''peak_usage_time'', None)] else [])
          @ (if 5 \<le> distinct_apps_last10 buf then [(''app_switching'', None)] else [])
        \<and> confidence (detect_patterns buf) =
            min (0.3 * real (length (patterns (detect_patterns buf)))
                 + (\<Sum>p\<leftarrow>patterns (detect_patterns buf). severity_bonus p)) 1)"
proof (intro conjI impI)
  assume "length buf < 10"
  then show "detect_patterns buf = \<lparr>patterns = [], confidence = 0\<rparr>"
    by (simp add: detect_patterns_def)
next
  assume n: "10 \<le> length buf"
  then have ne: "buf \<noteq> []" by auto
  obtain h where time: "detect_time_patterns buf =
           (if busiest_hour_minutes buf > 60
            then Some (Peak_usage_time h (busiest_hour_minutes buf)) else None)"
    using time_pattern_minutes [OF ne] by blast
  let ?ps = "append_if (append_if (append_if [] (detect_binge_pattern buf))
                          (detect_time_patterns buf)) (detect_app_switching buf)"
  have ps: "patterns (detect_patterns buf) = ?ps"
    and conf: "confidence (detect_patterns buf) = calculate_pattern_confidence ?ps"
    using n by (simp_all add: detect_patterns_def Let_def)
  have len: "length ?ps \<le> 3"
    by (simp add: append_if_def split: option.splits)
  show "pattern_kinds (patterns (detect_patterns buf)) =
          (if last20_minutes buf > 60
           then [(''binge_usage'',
                  Some (if last20_minutes buf > 120 then ''high'' else ''medium''))]
           else [])
          @ (if busiest_hour_minutes buf > 60 then [(''peak_usage_time'', None)] else [])
          @ (if 5 \<le> distinct_apps_last10 buf then [(''app_switching'', None)] else [])"
    unfolding ps binge_pattern_minutes [OF n] time app_switching_count [OF n]
    by (simp add: append_if_def pattern_kinds_def)
  show "confidence (detect_patterns buf) =
            min (0.3 * real (length (patterns (detect_patterns buf)))
                 + (\<Sum>p\<leftarrow>patterns (detect_patterns buf). severity_bonus p)) 1"
    unfolding conf ps by (rule confidence_formula [OF len])
qed

theorem detect_patterns_checks_witness:
  "pattern_kinds (patterns (detect_patterns example_buffer)) =
     [(''binge_usage'', Some ''high''), (''peak_usage_time'', None), (''app_switching'', None)]
   \<and> confidence (detect_patterns example_buffer) = 1
   \<and> detect_patterns (take 9 example_buffer) = \<lparr>patterns = [], confidence = 0\<rparr>"
proof -
  have len: "length example_buffer = 10"
    using arg_cong [OF example_buffer_entries, of length] by simp
  have durs: "map session_duration example_buffer = [800, 800, 800, 800, 800, 800, 800, 800, 800, 800]"
    and hours: "map (\<lambda>e. hour_of (timestamp e)) example_buffer = [9, 9, 9, 9, 9, 9, 9, 9, 9, 9]"
    and apps: "map app_name example_buffer
                 = [''A'', ''B'', ''C'', ''D'', ''E'', ''A'', ''B'', ''C'', ''D'', ''E'']"
    using arg_cong [OF example_buffer_entries, of "map (\<lambda>t. snd (snd t))"]
      arg_cong [OF example_buffer_entries, of "map (\<lambda>t. fst (snd t))"]
      arg_cong [OF example_buffer_entries, of "map fst"]
    by (simp_all add: comp_def)
  have l20: "last20_minutes example_buffer = 400 / 3"
    using durs by (simp add: last20_minutes_def len)
  have hset: "(\<lambda>e. hour_of (timestamp e)) ` set example_buffer = {9}"
    using arg_cong [OF hours, of set] by simp
  have all9: "filter (\<lambda>e. hour_of (timestamp e) = 9) example_buffer = example_buffer"
  proof -
    have "\<forall>e\<in>set example_buffer. hour_of (timestamp e) = 9" using hset by auto
    then show ?thesis by simp
  qed
  have busy: "busiest_hour_minutes example_buffer = 400 / 3"
    using durs by (simp add: busiest_hour_minutes_def hset hour_minutes_def all9)
  have d10: "distinct_apps_last10 example_buffer = 5"
  proof -
    have "app_name ` set example_buffer = {''A'', ''B'', ''C'', ''D'', ''E''}"
      using arg_cong [OF apps, of set] by auto
    then show ?thesis by (simp add: distinct_apps_last10_def len)
  qed
  have kinds: "pattern_kinds (patterns (detect_patterns example_buffer)) =
     [(''binge_usage'', Some ''high''), (''peak_usage_time'', None), (''app_switching'', None)]"
    and conf: "confidence (detect_patterns example_buffer) =
            min (0.3 * real (length (patterns (detect_patterns example_buffer)))
                 + (\<Sum>p\<leftarrow>patterns (detect_patterns example_buffer). severity_bonus p)) 1"
    using detect_patterns_checks [of example_buffer] by (simp_all add: len l20 busy d10)
  have l3: "length (patterns (detect_patterns example_buffer)) = 3"
    using arg_cong [OF kinds, of length] by (simp add: pattern_kinds_def)
  have bonus: "0 \<le> (\<Sum>p\<leftarrow>patterns (detect_patterns example_buffer). severity_bonus p)"
    by (rule sum_list_nonneg) (auto simp: severity_bonus_def)
  have sev: "map pattern_severity (patterns (detect_patterns example_buffer))
               = [Some ''high'', None, None]"
    using arg_cong [OF kinds, of "map snd"] by (simp add: pattern_kinds_def comp_def)
  then obtain p1 p2 p3 where p: "patterns (detect_patterns example_buffer) = [p1, p2, p3]"
    "pattern_severity p1 = Some ''high''" "pattern_severity p2 = None" "pattern_severity p3 = None"
    by (auto simp: map_eq_Cons_conv)
  have c1: "confidence (detect_patterns example_buffer) = 1"
    using conf by (simp add: p severity_bonus_def)
  have "detect_patterns (take 9 example_buffer) = \<lparr>patterns = [], confidence = 0\<rparr>"
    using detect_patterns_checks [of "take 9 example_buffer"] by (simp add: len)
  with kinds c1 show ?thesis by simp
qed

end
